theory Spec2Isabelle
  imports Main "HOL-Library.Sublist" "HOL-Library.AList"
begin

section \<open>Strings and paths\<close>

text \<open>
  Python strings are modelled as \<open>string\<close>. The source uses three string tests:
  \<^item> \<^verbatim>\<open>a in s\<close> and \<^verbatim>\<open>s.find(a) != -1\<close> on two strings: \<open>a\<close> occurs in \<open>s\<close> as a
    contiguous run of characters, which is \<^term>\<open>sublist a s\<close>;
  \<^item> \<^verbatim>\<open>s.startswith(t)\<close>, which is \<^term>\<open>prefix t s\<close>;
  \<^item> \<^verbatim>\<open>os.path.splitext\<close> followed by \<^verbatim>\<open>.lower()\<close>.
\<close>

definition lower_char :: "char \<Rightarrow> char" where
  "lower_char c =
     (let n = (of_char c :: nat)
      in if of_char CHR ''A'' \<le> n \<and> n \<le> of_char CHR ''Z'' then char_of (n + 32) else c)"

definition lower :: "string \<Rightarrow> string" where
  "lower s = map lower_char s"

text \<open>
  \<^verbatim>\<open>os.path.splitext(p)\<close> (POSIX): the extension starts at the last dot of \<open>p\<close>,
  provided that dot comes after the last \<^verbatim>\<open>/\<close> and that some character other than a dot
  stands between that \<^verbatim>\<open>/\<close> and the dot; otherwise the extension is empty.
\<close>

definition splitext :: "string \<Rightarrow> string \<times> string" where
  "splitext p =
     (let r = rev p;
          ext_r = takeWhile (\<lambda>c. c \<noteq> CHR ''.'') r;
          rest = dropWhile (\<lambda>c. c \<noteq> CHR ''.'') r
      in if rest = [] \<or> CHR ''/'' \<in> set ext_r then (p, [])
         else let root_r = tl rest;
                  base_r = takeWhile (\<lambda>c. c \<noteq> CHR ''/'') root_r
              in if list_all (\<lambda>c. c = CHR ''.'') base_r then (p, [])
                 else (rev root_r, CHR ''.'' # rev ext_r))"

section \<open>Data model of the classifier\<close>

record mail =
  sender :: string
  date :: string
  subject :: string
  body :: string

text \<open>
  Both indexes are Python dicts, which iterate in insertion order; they are association
  lists with distinct keys, written with \<^const>\<open>AList.update\<close> and read with
  \<^const>\<open>map_of\<close>.
\<close>

type_synonym mail_dict = "(string \<times> mail) list"
type_synonym attachment_dict = "(string \<times> string list) list"

text \<open>
  The part of the file system the two phases touch: whether the staging directory
  \<^verbatim>\<open>Attachments\<close> exists, the regular files directly inside it, the files of its
  subdirectory \<^verbatim>\<open>Unclassified\<close> (\<open>None\<close> when that directory does not exist), and the
  destination directories with the files they hold. The names are directory entries, as
  \<^verbatim>\<open>os.listdir\<close> gives them. Destination directories named by the configuration are taken
  to lie outside the staging directory.
\<close>

record filesystem =
  staging_exists :: bool
  staged :: "string list"
  unclassified :: "string list option"
  destinations :: "(string \<times> string list) list"

datatype error =
    MailKeyError string
  | LabelKeyError string
  | ConfigUnreadable
  | FileNotFoundError string
  | FileExistsError string
  | IsADirectoryError string
  | DestinationExists string

type_synonym result = "(error \<times> filesystem) + filesystem"

text \<open>The rule tables, in their declared order.\<close>

definition Subject_filter :: "(string \<times> string) list" where
  "Subject_filter =
     [(''[Not Virus Scanned] Ahli Bank -  Statement , Portfolio '', ''Ahli''),
      (''[Not Virus Scanned] WOQOD - Fahes - Account Statement & Portfolio'', ''Fahes''),
      (''[Not Virus Scanned] Ahli Brokerage - Ardh Al Khaleej'', ''Waqod'')]"

definition BodyTitle_filter :: "(string \<times> string) list" where
  "BodyTitle_filter =
     [(''CIVIL FUND - QINVEST'', ''Civil I''),
      (''GIRAFFA QIC'', ''Giraffa''),
      (''OQIC'', ''Oman''),
      (''MILITARY FUND - QINVEST / N'', ''Military I''),
      (''QATAR INSURANCE COMPANY S.A.Q'', ''QIC''),
      (''RASLAFFAN OPERATING COMPANY WLL'', ''QEWC'')]"

definition DocName_filter :: "(string \<times> string) list" where
  "DocName_filter = [(''170792'', ''Pension C''), (''170793'', ''Pension M'')]"

section \<open>The classifier\<close>

text \<open>What a destination directory and the \<^verbatim>\<open>Unclassified\<close> directory hold.\<close>

definition dest_files :: "filesystem \<Rightarrow> string \<Rightarrow> string list" where
  "dest_files fs d = (case map_of (destinations fs) d of None \<Rightarrow> [] | Some fl \<Rightarrow> fl)"

definition unclassified_files :: "filesystem \<Rightarrow> string list" where
  "unclassified_files fs = (case unclassified fs of None \<Rightarrow> [] | Some fl \<Rightarrow> fl)"

text \<open>\<^verbatim>\<open>os.listdir(path)\<close>: the regular files and, when it exists, the subdirectory.\<close>

definition listdir :: "filesystem \<Rightarrow> string list" where
  "listdir fs =
     staged fs @ (case unclassified fs of None \<Rightarrow> [] | Some _ \<Rightarrow> [''Unclassified''])"

text \<open>
  The keys of the attachment index one of whose listed names contains the staged name:
  \<^verbatim>\<open>any(attachment in string for string in value)\<close>.
\<close>

definition matching_keys :: "string \<Rightarrow> attachment_dict \<Rightarrow> string list" where
  "matching_keys attachment ad =
     map fst (filter (\<lambda>(key, value). list_ex (\<lambda>string. sublist attachment string) value) ad)"

text \<open>
  The two closures of the inner loop. Each looks the message up inside its scan of the
  table, so a missing message raises \<^verbatim>\<open>KeyError\<close> at the first table entry.
\<close>

fun subjectCheck :: "mail_dict \<Rightarrow> string \<Rightarrow> string list \<Rightarrow> error + string option" where
  "subjectCheck md key [] = Inr None"
| "subjectCheck md key (s # ss) =
     (case map_of md key of
        None \<Rightarrow> Inl (MailKeyError key)
      | Some m \<Rightarrow> if sublist s (subject m) then Inr (Some s) else subjectCheck md key ss)"

fun bodyTitleCheck :: "mail_dict \<Rightarrow> string \<Rightarrow> string list \<Rightarrow> error + string option" where
  "bodyTitleCheck md key [] = Inr None"
| "bodyTitleCheck md key (t # ts) =
     (case map_of md key of
        None \<Rightarrow> Inl (MailKeyError key)
      | Some m \<Rightarrow> if prefix t (body m) then Inr (Some t) else bodyTitleCheck md key ts)"

text \<open>\<^verbatim>\<open>os.makedirs(destination_path, exist_ok=True)\<close>.\<close>

definition makedirs :: "string \<Rightarrow> filesystem \<Rightarrow> filesystem" where
  "makedirs dest fs =
     (case map_of (destinations fs) dest of
        Some _ \<Rightarrow> fs
      | None \<Rightarrow> fs\<lparr>destinations := AList.update dest [] (destinations fs)\<rparr>)"

text \<open>
  The body shared by the three matched branches: read the configuration, look the label
  up, create the destination, copy the staged file there and remove the original. The
  directory is created before the copy, so it stays when the copy fails.
\<close>

definition copy_to_label :: "(string \<times> string) list option \<Rightarrow> string \<Rightarrow> string \<Rightarrow> filesystem \<Rightarrow> result" where
  "copy_to_label cfg label attachment fs =
     (case cfg of
        None \<Rightarrow> Inl (ConfigUnreadable, fs)
      | Some data \<Rightarrow>
          (case map_of data label of
             None \<Rightarrow> Inl (LabelKeyError label, fs)
           | Some destination_path \<Rightarrow>
               let fs1 = makedirs destination_path fs in
               if attachment \<in> set (staged fs1) then
                 Inr (fs1\<lparr>staged := removeAll attachment (staged fs1),
                           destinations := AList.update destination_path
                             (List.insert attachment (dest_files fs1 destination_path))
                             (destinations fs1)\<rparr>)
               else if attachment = ''Unclassified'' \<and> unclassified fs1 \<noteq> None then
                 Inl (IsADirectoryError attachment, fs1)
               else Inl (FileNotFoundError attachment, fs1)))"

text \<open>
  The last branch: create \<^verbatim>\<open>Unclassified\<close> and \<^verbatim>\<open>shutil.move\<close> the file into it.
  \<^verbatim>\<open>shutil.move\<close> returns at once when source and destination are the same directory,
  and refuses a name the destination already holds before it looks at the source.
\<close>

definition move_unclassified :: "string \<Rightarrow> filesystem \<Rightarrow> result" where
  "move_unclassified attachment fs =
     (if ''Unclassified'' \<in> set (staged fs) then Inl (FileExistsError ''Unclassified'', fs)
      else
        let held = unclassified_files fs;
            fs1 = fs\<lparr>unclassified := Some held\<rparr>
        in if attachment = ''Unclassified'' then Inr fs1
           else if attachment \<in> set held then Inl (DestinationExists attachment, fs1)
           else if attachment \<in> set (staged fs1) then
             Inr (fs1\<lparr>staged := removeAll attachment (staged fs1),
                      unclassified := Some (held @ [attachment])\<rparr>)
           else Inl (FileNotFoundError attachment, fs1))"

text \<open>One pass of the inner loop: the \<^verbatim>\<open>if\<close>/\<^verbatim>\<open>elif\<close>/\<^verbatim>\<open>else\<close> chain for one owner.\<close>

definition route :: "mail_dict \<Rightarrow> (string \<times> string) list option \<Rightarrow> string \<Rightarrow> string \<Rightarrow> filesystem \<Rightarrow> result" where
  "route md cfg attachment key fs =
     (case subjectCheck md key (map fst Subject_filter) of
        Inl e \<Rightarrow> Inl (e, fs)
      | Inr (Some sub) \<Rightarrow>
          copy_to_label cfg (the (map_of Subject_filter sub)) attachment fs
      | Inr None \<Rightarrow>
          (case bodyTitleCheck md key (map fst BodyTitle_filter) of
             Inl e \<Rightarrow> Inl (e, fs)
           | Inr (Some tc) \<Rightarrow>
               copy_to_label cfg (the (map_of BodyTitle_filter tc)) attachment fs
           | Inr None \<Rightarrow>
               (case map_of DocName_filter (fst (splitext attachment)) of
                  Some label \<Rightarrow> copy_to_label cfg label attachment fs
                | None \<Rightarrow> move_unclassified attachment fs)))"

text \<open>The inner loop over the owners; an exception ends the run.\<close>

fun route_keys :: "mail_dict \<Rightarrow> (string \<times> string) list option \<Rightarrow> string \<Rightarrow> string list \<Rightarrow> filesystem \<Rightarrow> result" where
  "route_keys md cfg attachment [] fs = Inr fs"
| "route_keys md cfg attachment (key # keys) fs =
     (case route md cfg attachment key fs of
        Inl e \<Rightarrow> Inl e
      | Inr fs' \<Rightarrow> route_keys md cfg attachment keys fs')"

text \<open>The outer loop over the directory listing taken before the loop starts.\<close>

fun route_files :: "mail_dict \<Rightarrow> attachment_dict \<Rightarrow> (string \<times> string) list option \<Rightarrow> string list \<Rightarrow> filesystem \<Rightarrow> result" where
  "route_files md ad cfg [] fs = Inr fs"
| "route_files md ad cfg (attachment # rest) fs =
     (case route_keys md cfg attachment (matching_keys attachment ad) fs of
        Inl e \<Rightarrow> Inl e
      | Inr fs' \<Rightarrow> route_files md ad cfg rest fs')"

definition filter_office365_attachments :: "mail_dict \<Rightarrow> attachment_dict \<Rightarrow> (string \<times> string) list option \<Rightarrow> filesystem \<Rightarrow> result" where
  "filter_office365_attachments md ad cfg fs =
     (if \<not> staging_exists fs then Inl (FileNotFoundError ''Attachments'', fs)
      else case route_files md ad cfg (listdir fs) fs of
             Inl e \<Rightarrow> Inl e
           | Inr fs' \<Rightarrow>
               Inr (if listdir fs' = [] then fs'\<lparr>staging_exists := False\<rparr> else fs'))"

text \<open>The file system a run leaves behind, whether it ended normally or by an exception.\<close>

fun final_fs :: "result \<Rightarrow> filesystem" where
  "final_fs (Inl (e, fs)) = fs"
| "final_fs (Inr fs) = fs"

text \<open>
  The owners as the specification words them, for comparison with \<^const>\<open>matching_keys\<close>:
  the message IDs whose entry contains the exact filename.
\<close>

definition exact_owners :: "string \<Rightarrow> attachment_dict \<Rightarrow> string list" where
  "exact_owners attachment ad =
     map fst (filter (\<lambda>(key, value). attachment \<in> set value) ad)"

section \<open>The mail fetcher\<close>

text \<open>
  The mail API is a collaborator. A value of type \<open>server\<close> stands for what surrounds one
  run. Its first three fields are the mailbox as the requests see it (with this run's token
  and date filter): what the list endpoint answers for a URL, what the message endpoint
  answers for a message ID, and whether the content endpoint answers for an attachment of
  a message. An answer is \<open>Inl\<close> when \<^verbatim>\<open>requests.get\<close> or \<^verbatim>\<open>raise_for_status\<close> raises. The
  JSON answers are well-formed: they carry the keys the code reads.
\<close>

datatype request_error = HTTPError nat | ConnectionError | JSONDecodeError

text \<open>
  The attachment name comes from the mail API and is joined to the staging path as it is:
  \<^verbatim>\<open>open(os.path.join(path, attachment_name), "wb")\<close>. A name without a path separator
  names an entry of the staging directory. A name with one is a path: \<^verbatim>\<open>../r.pdf\<close> leaves
  the staging directory, \<^verbatim>\<open>sub/r.pdf\<close> needs a subdirectory, \<^verbatim>\<open>./r.pdf\<close> comes back to an
  entry of the staging directory, and a name that starts with the separator replaces the
  staging path altogether. Where such a path leads depends on the directories around the
  staging directory, which the type \<open>filesystem\<close> does not hold; it is the fourth field
  of \<open>server\<close>, the answer of the operating system for a name with a separator: an entry
  of the staging directory, an entry of \<^verbatim>\<open>Unclassified\<close>, an entry of a directory that
  \<open>filesystem\<close> lists among the destinations, a file somewhere else, or no file because a
  directory of the path is missing. In the last case \<^verbatim>\<open>open\<close> raises \<^verbatim>\<open>FileNotFoundError\<close>,
  an \<^verbatim>\<open>OSError\<close>; for a name with a null character it raises \<^verbatim>\<open>ValueError\<close>. Neither is a
  \<^verbatim>\<open>RequestException\<close>. Paths are POSIX paths, as for \<^const>\<open>splitext\<close>, and the staging
  directory is taken to be writable.
\<close>

datatype write_target =
    InStaging string
  | InUnclassified string
  | InDirectory string string
  | Elsewhere
  | NoSuchDirectory

datatype open_error = OSError string | ValueError string

datatype failure = RequestException request_error | OpenError open_error

record attachment =
  att_id :: string
  att_name :: string
  att_contentType :: string

text \<open>
  The message resource. \<open>ed_attachments\<close> is \<open>None\<close> when the JSON has no
  \<^verbatim>\<open>attachments\<close> key; \<open>ed_nextLink\<close> is the value of an \<^verbatim>\<open>@odata.nextLink\<close> key of the
  message JSON itself, \<open>None\<close> when it has none.
\<close>

record email_data =
  ed_attachments :: "attachment list option"
  ed_sender :: string
  ed_receivedDateTime :: string
  ed_subject :: string
  ed_body_content :: string
  ed_body_contentType :: string
  ed_nextLink :: "string option"

text \<open>A page of the list endpoint: the IDs under \<^verbatim>\<open>value\<close> and the cursor.\<close>

record message_list =
  ml_value :: "string list"
  ml_nextLink :: "string option"

record server =
  list_messages :: "string \<Rightarrow> request_error + message_list"
  get_message :: "string \<Rightarrow> request_error + email_data"
  get_content :: "string \<Rightarrow> string \<Rightarrow> request_error + unit"
  open_path :: "string \<Rightarrow> write_target"

text \<open>
  The variable \<^verbatim>\<open>response\<close> is assigned by all three kinds of request; what it holds
  decides what \<^verbatim>\<open>response.json().get("@odata.nextLink")\<close> gives at the end of a page.
  The body of a downloaded PDF is not JSON: \<^verbatim>\<open>json()\<close> raises the \<^verbatim>\<open>JSONDecodeError\<close> of
  \<^verbatim>\<open>requests\<close>, a \<^verbatim>\<open>RequestException\<close>.
\<close>

datatype response = ListResponse message_list | MessageResponse email_data | ContentResponse

fun next_link :: "response \<Rightarrow> request_error + string option" where
  "next_link (ListResponse page) = Inr (ml_nextLink page)"
| "next_link (MessageResponse email_data) = Inr (ed_nextLink email_data)"
| "next_link ContentResponse = Inl JSONDecodeError"

record fetch_state =
  st_mail_dict :: mail_dict
  st_attachment_dict :: attachment_dict
  st_response :: response
  st_files :: filesystem

definition messages_url :: string where
  "messages_url = ''https://graph.microsoft.com/v1.0/users/sharedmailbox@domain.com/messages''"

text \<open>An entry of the staging directory is created, or overwritten when it is there.\<close>

definition write_file :: "string \<Rightarrow> filesystem \<Rightarrow> filesystem" where
  "write_file name fs =
     (if name \<in> set (staged fs) then fs else fs\<lparr>staged := staged fs @ [name]\<rparr>)"

text \<open>
  \<^verbatim>\<open>attachment_path = os.path.join(path, attachment_name)\<close>, \<^verbatim>\<open>open(attachment_path, "wb")\<close>
  and \<^verbatim>\<open>f.write\<close>. Only a name without a separator is known to be an entry of the staging
  directory; for any other the path decides. A path that ends at the directory
  \<^verbatim>\<open>Unclassified\<close>, or inside a directory that does not exist, cannot be opened.
\<close>

definition write_attachment :: "server \<Rightarrow> string \<Rightarrow> filesystem \<Rightarrow> open_error + filesystem" where
  "write_attachment srv attachment_name fs =
     (if CHR 0x00 \<in> set attachment_name then Inl (ValueError attachment_name)
      else
        case (if CHR ''/'' \<in> set attachment_name then open_path srv attachment_name
              else InStaging attachment_name) of
          InStaging name \<Rightarrow>
            if name = ''Unclassified'' \<and> unclassified fs \<noteq> None
            then Inl (OSError attachment_name)
            else Inr (write_file name fs)
        | InUnclassified name \<Rightarrow>
            (case unclassified fs of
               None \<Rightarrow> Inl (OSError attachment_name)
             | Some held \<Rightarrow>
                 Inr (fs\<lparr>unclassified := Some (if name \<in> set held then held else held @ [name])\<rparr>))
        | InDirectory directory name \<Rightarrow>
            (case map_of (destinations fs) directory of
               None \<Rightarrow> Inl (OSError attachment_name)
             | Some held \<Rightarrow>
                 Inr (fs\<lparr>destinations :=
                        AList.update directory (List.insert name held) (destinations fs)\<rparr>))
        | Elsewhere \<Rightarrow> Inr fs
        | NoSuchDirectory \<Rightarrow> Inl (OSError attachment_name))"

definition is_pdf :: "attachment \<Rightarrow> bool" where
  "is_pdf att \<longleftrightarrow> lower (snd (splitext (att_name att))) = ''.pdf''"

text \<open>\<^verbatim>\<open>email_data.get("attachments", [])\<close>.\<close>

definition attachments_of :: "email_data \<Rightarrow> attachment list" where
  "attachments_of email_data =
     (case ed_attachments email_data of None \<Rightarrow> [] | Some atts \<Rightarrow> atts)"

text \<open>
  The loop over the attachments of one message. The name is appended before the download
  is requested; a failed request, or a file that cannot be opened, ends the loop with the
  exception.
\<close>

fun download_pdfs :: "server \<Rightarrow> string \<Rightarrow> attachment list \<Rightarrow> string list \<times> response \<times> filesystem
    \<Rightarrow> failure option \<times> string list \<times> response \<times> filesystem" where
  "download_pdfs srv email_id [] acc = (None, acc)"
| "download_pdfs srv email_id (att # atts) (attachments, response, fs) =
     (if is_pdf att then
        (case get_content srv email_id (att_id att) of
           Inl e \<Rightarrow> (Some (RequestException e), attachments @ [att_name att], response, fs)
         | Inr _ \<Rightarrow>
             (case write_attachment srv (att_name att) fs of
                Inl e \<Rightarrow> (Some (OpenError e), attachments @ [att_name att], ContentResponse, fs)
              | Inr fs' \<Rightarrow>
                  download_pdfs srv email_id atts
                    (attachments @ [att_name att], ContentResponse, fs')))
      else download_pdfs srv email_id atts (attachments, response, fs))"

text \<open>
  The body of the loop over the messages of a page. The text extractor is a library
  call (an HTML parser); it is the parameter \<open>extract_text_from_html\<close>.
\<close>

definition process_message :: "(string \<Rightarrow> string) \<Rightarrow> server \<Rightarrow> string \<Rightarrow> fetch_state
    \<Rightarrow> failure option \<times> fetch_state" where
  "process_message extract_text_from_html srv email_id st =
     (case get_message srv email_id of
        Inl e \<Rightarrow> (Some (RequestException e), st)
      | Inr email_data \<Rightarrow>
          (case download_pdfs srv email_id (attachments_of email_data)
                  ([], MessageResponse email_data, st_files st) of
             (Some e, attachments, response, fs) \<Rightarrow>
               (Some e, st\<lparr>st_response := response, st_files := fs\<rparr>)
           | (None, attachments, response, fs) \<Rightarrow>
               let body = (if ed_body_contentType email_data = ''text/html''
                           then extract_text_from_html (ed_body_content email_data)
                           else ed_body_content email_data);
                   md = (if attachments \<noteq> [] then
                           AList.update email_id
                             \<lparr>sender = ed_sender email_data,
                              date = ed_receivedDateTime email_data,
                              subject = ed_subject email_data,
                              body = body\<rparr> (st_mail_dict st)
                         else st_mail_dict st)
               in (None, st\<lparr>st_mail_dict := md,
                            st_attachment_dict :=
                              AList.update email_id attachments (st_attachment_dict st),
                            st_response := response,
                            st_files := fs\<rparr>)))"

fun process_messages :: "(string \<Rightarrow> string) \<Rightarrow> server \<Rightarrow> string list \<Rightarrow> fetch_state
    \<Rightarrow> failure option \<times> fetch_state" where
  "process_messages ex srv [] st = (None, st)"
| "process_messages ex srv (email_id # rest) st =
     (case process_message ex srv email_id st of
        (Some e, st') \<Rightarrow> (Some e, st')
      | (None, st') \<Rightarrow> process_messages ex srv rest st')"

text \<open>
  The \<^verbatim>\<open>while True\<close> loop, with fuel: one unit per page requested. The cursor is read from
  whatever \<^verbatim>\<open>response\<close> holds after the messages of the page; an absent or empty cursor
  ends the loop. A \<^verbatim>\<open>RequestException\<close> is caught by the \<^verbatim>\<open>except\<close> clause around the loop;
  the exception of a file that cannot be opened is not, and leaves the function.
\<close>

datatype outcome = Returned | Aborted request_error | Raised open_error | OutOfFuel

fun fetch_pages :: "(string \<Rightarrow> string) \<Rightarrow> nat \<Rightarrow> server \<Rightarrow> string \<Rightarrow> fetch_state
    \<Rightarrow> outcome \<times> fetch_state" where
  "fetch_pages ex 0 srv url st = (OutOfFuel, st)"
| "fetch_pages ex (Suc n) srv url st =
     (case list_messages srv url of
        Inl e \<Rightarrow> (Aborted e, st)
      | Inr page \<Rightarrow>
          (case process_messages ex srv (ml_value page) (st\<lparr>st_response := ListResponse page\<rparr>) of
             (Some (RequestException e), st') \<Rightarrow> (Aborted e, st')
           | (Some (OpenError e), st') \<Rightarrow> (Raised e, st')
           | (None, st') \<Rightarrow>
               (case next_link (st_response st') of
                  Inl e \<Rightarrow> (Aborted e, st')
                | Inr None \<Rightarrow> (Returned, st')
                | Inr (Some next) \<Rightarrow>
                    if next = [] then (Returned, st') else fetch_pages ex n srv next st')))"

text \<open>
  Both exits of the function, the \<^verbatim>\<open>return\<close> after the loop and the one in the
  \<^verbatim>\<open>except\<close> clause, return the two dicts as they are at that moment. Nothing is returned
  when an uncaught exception leaves the function, nor while the loop runs on.
\<close>

fun returned :: "outcome \<times> fetch_state \<Rightarrow> ((mail_dict \<times> attachment_dict) \<times> filesystem) option" where
  "returned (OutOfFuel, st) = None"
| "returned (Raised e, st) = None"
| "returned (Returned, st) = Some ((st_mail_dict st, st_attachment_dict st), st_files st)"
| "returned (Aborted e, st) = Some ((st_mail_dict st, st_attachment_dict st), st_files st)"

text \<open>\<^verbatim>\<open>os.makedirs(path, exist_ok=True)\<close> for the staging directory.\<close>

definition make_staging :: "filesystem \<Rightarrow> filesystem" where
  "make_staging fs =
     (if staging_exists fs then fs
      else fs\<lparr>staging_exists := True, staged := [], unclassified := None\<rparr>)"

text \<open>
  The state before the first request: both dicts empty, the staging directory made.
  \<^verbatim>\<open>response\<close> is not yet bound then; the first list request binds it before it is read.
\<close>

definition initial_state :: "filesystem \<Rightarrow> fetch_state" where
  "initial_state fs =
     \<lparr>st_mail_dict = [], st_attachment_dict = [],
      st_response = ListResponse \<lparr>ml_value = [], ml_nextLink = None\<rparr>,
      st_files = make_staging fs\<rparr>"

definition download_office365_attachments :: "(string \<Rightarrow> string) \<Rightarrow> nat \<Rightarrow> server \<Rightarrow> filesystem
    \<Rightarrow> ((mail_dict \<times> attachment_dict) \<times> filesystem) option" where
  "download_office365_attachments ex fuel srv fs =
     returned (fetch_pages ex fuel srv messages_url (initial_state fs))"

text \<open>
  The two phases of \<^verbatim>\<open>main\<close>, after the token has been obtained. \<^verbatim>\<open>main\<close> catches nothing:
  when the fetcher returns nothing, neither does \<^verbatim>\<open>main\<close>.
\<close>

definition main :: "(string \<Rightarrow> string) \<Rightarrow> nat \<Rightarrow> server \<Rightarrow> (string \<times> string) list option
    \<Rightarrow> filesystem \<Rightarrow> result option" where
  "main ex fuel srv cfg fs =
     (case download_office365_attachments ex fuel srv fs of
        None \<Rightarrow> None
      | Some ((mail_dict, attachment_dict), fs') \<Rightarrow>
          Some (filter_office365_attachments mail_dict attachment_dict cfg fs'))"

text \<open>The names of the PDF attachments of a message, in the order the message lists them.\<close>

definition pdf_names :: "email_data \<Rightarrow> string list" where
  "pdf_names email_data = map att_name (filter is_pdf (attachments_of email_data))"


text \<open>What the fetcher stores for a message: its body, and the whole index entry.\<close>

definition stored_body :: "(string \<Rightarrow> string) \<Rightarrow> email_data \<Rightarrow> string" where
  "stored_body ex d =
     (if ed_body_contentType d = ''text/html'' then ex (ed_body_content d)
      else ed_body_content d)"

definition mail_of :: "(string \<Rightarrow> string) \<Rightarrow> email_data \<Rightarrow> mail" where
  "mail_of ex d =
     \<lparr>sender = ed_sender d, date = ed_receivedDateTime d, subject = ed_subject d,
      body = stored_body ex d\<rparr>"

text \<open>
  The messages a run of the loops has processed: those for which the body of the loop over
  the messages of a page has run to its last statement, in the order of the run. The two
  functions follow \<^const>\<open>process_messages\<close> and \<^const>\<open>fetch_pages\<close> and collect the IDs.
\<close>

fun processed_of_page :: "(string \<Rightarrow> string) \<Rightarrow> server \<Rightarrow> string list \<Rightarrow> fetch_state
    \<Rightarrow> string list" where
  "processed_of_page ex srv [] st = []"
| "processed_of_page ex srv (email_id # rest) st =
     (case process_message ex srv email_id st of
        (Some e, st') \<Rightarrow> []
      | (None, st') \<Rightarrow> email_id # processed_of_page ex srv rest st')"

fun processed :: "(string \<Rightarrow> string) \<Rightarrow> nat \<Rightarrow> server \<Rightarrow> string \<Rightarrow> fetch_state
    \<Rightarrow> string list" where
  "processed ex 0 srv url st = []"
| "processed ex (Suc n) srv url st =
     (case list_messages srv url of
        Inl e \<Rightarrow> []
      | Inr page \<Rightarrow>
          processed_of_page ex srv (ml_value page) (st\<lparr>st_response := ListResponse page\<rparr>) @
          (case process_messages ex srv (ml_value page) (st\<lparr>st_response := ListResponse page\<rparr>) of
             (Some e, st') \<Rightarrow> []
           | (None, st') \<Rightarrow>
               (case next_link (st_response st') of
                  Inl e \<Rightarrow> []
                | Inr None \<Rightarrow> []
                | Inr (Some next) \<Rightarrow>
                    if next = [] then [] else processed ex n srv next st')))"

text \<open>
  The invariant of the fetch loops: the attachment index has distinct keys, every indexed
  message has exactly the PDF names of its message resource, it is in the message index
  with the entry built from that resource if and only if that list is not empty, and every
  listed name without a path separator is a staged file.
\<close>

definition fetch_inv :: "(string \<Rightarrow> string) \<Rightarrow> server \<Rightarrow> fetch_state \<Rightarrow> bool" where
  "fetch_inv ex srv st \<longleftrightarrow>
     distinct (map fst (st_attachment_dict st)) \<and>
     (\<forall>i. map_of (st_attachment_dict st) i = None \<longrightarrow> map_of (st_mail_dict st) i = None) \<and>
     (\<forall>i names. map_of (st_attachment_dict st) i = Some names \<longrightarrow>
        (\<exists>d. get_message srv i = Inr d \<and> names = pdf_names d \<and>
           map_of (st_mail_dict st) i = (if names = [] then None else Some (mail_of ex d))) \<and>
        (\<forall>n \<in> set names. CHR ''/'' \<notin> set n \<longrightarrow> n \<in> set (staged (st_files st))))"

section \<open>Example mailboxes\<close>

text \<open>Example mailboxes, used to run the fetcher on concrete answers of the mail API.\<close>

definition example_note :: email_data where
  "example_note =
     \<lparr>ed_attachments = None, ed_sender = ''ops@example.com'',
      ed_receivedDateTime = ''2023-05-01T08:00:00Z'', ed_subject = ''Reminder'',
      ed_body_content = ''<p>Hello</p>'', ed_body_contentType = ''text/html'',
      ed_nextLink = None\<rparr>"

definition example_statement :: email_data where
  "example_statement =
     \<lparr>ed_attachments = Some
        [\<lparr>att_id = ''a1'', att_name = ''report.PDF'', att_contentType = ''application/pdf''\<rparr>,
         \<lparr>att_id = ''a2'', att_name = ''logo.png'', att_contentType = ''image/png''\<rparr>],
      ed_sender = ''bank@example.com'',
      ed_receivedDateTime = ''2023-05-01T09:00:00Z'', ed_subject = ''Statement'',
      ed_body_content = ''<p>OQIC monthly</p>'', ed_body_contentType = ''text/html'',
      ed_nextLink = None\<rparr>"

definition example_messages :: "string \<Rightarrow> request_error + email_data" where
  "example_messages email_id =
     (if email_id = ''m1'' then Inr example_note
      else if email_id = ''m2'' then Inr example_statement
      else Inl (HTTPError 503))"

text \<open>One page listing \<open>m2\<close>, then \<open>m1\<close>.\<close>

definition mailbox_one_page :: server where
  "mailbox_one_page =
     \<lparr>list_messages = (\<lambda>url. if url = messages_url
          then Inr \<lparr>ml_value = [''m2'', ''m1''], ml_nextLink = None\<rparr>
          else Inl (HTTPError 404)),
      get_message = example_messages,
      get_content = (\<lambda>email_id attachment_id. Inr ()),
      open_path = (\<lambda>name. Elsewhere)\<rparr>"

text \<open>A first page listing \<open>m1\<close> with a cursor to a second page listing \<open>m2\<close>.\<close>

definition mailbox_two_pages :: server where
  "mailbox_two_pages =
     \<lparr>list_messages = (\<lambda>url. if url = messages_url
          then Inr \<lparr>ml_value = [''m1''], ml_nextLink = Some ''https://graph.example/page2''\<rparr>
          else if url = ''https://graph.example/page2''
          then Inr \<lparr>ml_value = [''m2''], ml_nextLink = None\<rparr>
          else Inl (HTTPError 404)),
      get_message = example_messages,
      get_content = (\<lambda>email_id attachment_id. Inr ()),
      open_path = (\<lambda>name. Elsewhere)\<rparr>"


text \<open>
  One page listing \<open>m4\<close>, a message with a PDF attachment whose body the mail API reports
  with the content type \<^verbatim>\<open>html\<close>.
\<close>

definition example_html_statement :: email_data where
  "example_html_statement =
     \<lparr>ed_attachments = Some
        [\<lparr>att_id = ''a1'', att_name = ''report.pdf'', att_contentType = ''application/pdf''\<rparr>],
      ed_sender = ''bank@example.com'',
      ed_receivedDateTime = ''2023-05-01T09:00:00Z'', ed_subject = ''Statement'',
      ed_body_content = ''<p>OQIC monthly</p>'', ed_body_contentType = ''html'',
      ed_nextLink = None\<rparr>"

definition mailbox_html :: server where
  "mailbox_html =
     \<lparr>list_messages = (\<lambda>url. if url = messages_url
          then Inr \<lparr>ml_value = [''m4''], ml_nextLink = None\<rparr>
          else Inl (HTTPError 404)),
      get_message = (\<lambda>email_id. if email_id = ''m4'' then Inr example_html_statement
          else Inl (HTTPError 404)),
      get_content = (\<lambda>email_id attachment_id. Inr ()),
      open_path = (\<lambda>name. Elsewhere)\<rparr>"

text \<open>
  One page listing \<open>m5\<close>, a message with a PDF attachment named \<^verbatim>\<open>../report.pdf\<close>. The
  path \<^verbatim>\<open>Attachments/../report.pdf\<close> is the file \<^verbatim>\<open>report.pdf\<close> of the working directory.
\<close>

definition example_path_statement :: email_data where
  "example_path_statement =
     \<lparr>ed_attachments = Some
        [\<lparr>att_id = ''a1'', att_name = ''../report.pdf'', att_contentType = ''application/pdf''\<rparr>],
      ed_sender = ''bank@example.com'',
      ed_receivedDateTime = ''2023-05-01T09:00:00Z'', ed_subject = ''Statement'',
      ed_body_content = ''OQIC monthly'', ed_body_contentType = ''text'',
      ed_nextLink = None\<rparr>"

definition mailbox_path_name :: server where
  "mailbox_path_name =
     \<lparr>list_messages = (\<lambda>url. if url = messages_url
          then Inr \<lparr>ml_value = [''m5''], ml_nextLink = None\<rparr>
          else Inl (HTTPError 404)),
      get_message = (\<lambda>email_id. if email_id = ''m5'' then Inr example_path_statement
          else Inl (HTTPError 404)),
      get_content = (\<lambda>email_id attachment_id. Inr ()),
      open_path = (\<lambda>name. if name = ''../report.pdf'' then Elsewhere else NoSuchDirectory)\<rparr>"

definition example_extract :: "string \<Rightarrow> string" where
  "example_extract html = filter (\<lambda>c. c \<notin> set ''<p>/'') html"

definition empty_disk :: filesystem where
  "empty_disk = \<lparr>staging_exists = False, staged = [], unclassified = None, destinations = []\<rparr>"

section \<open>An example staging directory\<close>

text \<open>
  Four staged files, each listed by one message. The first message matches a subject rule
  and a body rule, the second a body rule only, the third and the fourth no subject and no
  body rule; the third file has a stem of the filename table.
\<close>

definition mail_fahes :: mail where
  "mail_fahes =
     \<lparr>sender = ''bank@example.com'', date = ''2023-05-01T08:00:00Z'',
      subject = ''FW: [Not Virus Scanned] WOQOD - Fahes - Account Statement & Portfolio'',
      body = ''OQIC monthly''\<rparr>"

definition mail_oman :: mail where
  "mail_oman =
     \<lparr>sender = ''bank@example.com'', date = ''2023-05-01T09:00:00Z'',
      subject = ''Monthly statement'', body = ''OQIC monthly''\<rparr>"

definition mail_plain :: mail where
  "mail_plain =
     \<lparr>sender = ''bank@example.com'', date = ''2023-05-01T10:00:00Z'',
      subject = ''Monthly statement'', body = ''See attached''\<rparr>"

definition example_mail_dict :: mail_dict where
  "example_mail_dict =
     [(''m1'', mail_fahes), (''m2'', mail_oman), (''m3'', mail_plain), (''m4'', mail_plain)]"

definition example_attachment_dict :: attachment_dict where
  "example_attachment_dict =
     [(''m1'', [''fahes.pdf'']), (''m2'', [''oman.pdf'']), (''m3'', [''170792.pdf'']),
      (''m4'', [''notes.pdf''])]"

definition example_config :: "(string \<times> string) list" where
  "example_config =
     [(''Fahes'', ''/portfolios/fahes''), (''Oman'', ''/portfolios/oman''),
      (''Pension C'', ''/portfolios/pension_c'')]"

definition example_staging :: filesystem where
  "example_staging =
     \<lparr>staging_exists = True,
      staged = [''fahes.pdf'', ''oman.pdf'', ''170792.pdf'', ''notes.pdf''],
      unclassified = None, destinations = []\<rparr>"

section \<open>Frame properties of the classifier\<close>

lemma makedirs_frame [simp]:
  "staged (makedirs d fs) = staged fs"
  "unclassified (makedirs d fs) = unclassified fs"
  "staging_exists (makedirs d fs) = staging_exists fs"
  by (simp_all add: makedirs_def split: option.splits)

lemma dest_files_makedirs [simp]: "dest_files (makedirs d fs) = dest_files fs"
  by (rule ext) (simp add: makedirs_def dest_files_def update_conv' split: option.splits)

lemma unclassified_files_makedirs [simp]:
  "unclassified_files (makedirs d fs) = unclassified_files fs"
  by (simp add: unclassified_files_def)

lemma dest_files_update:
  "dest_files (fs\<lparr>staged := st, destinations := AList.update d v (destinations fs)\<rparr>) =
     (dest_files fs)(d := v)"
  by (rule ext) (simp add: dest_files_def update_conv')

lemma copy_to_label_Inr:
  assumes "copy_to_label cfg label a fs = Inr fs'"
  shows "\<exists>data d. cfg = Some data \<and> map_of data label = Some d \<and> a \<in> set (staged fs) \<and>
           staged fs' = removeAll a (staged fs) \<and> unclassified fs' = unclassified fs \<and>
           staging_exists fs' = staging_exists fs \<and>
           dest_files fs' = (dest_files fs)(d := List.insert a (dest_files fs d))"
proof -
  from assms obtain data d where c: "cfg = Some data" "map_of data label = Some d"
    by (auto simp: copy_to_label_def split: option.splits)
  from assms c have a: "a \<in> set (staged fs)"
    by (auto simp: copy_to_label_def Let_def split: if_splits)
  from assms c a have fs': "fs' = (makedirs d fs)\<lparr>staged := removeAll a (staged (makedirs d fs)),
      destinations := AList.update d (List.insert a (dest_files (makedirs d fs) d))
        (destinations (makedirs d fs))\<rparr>"
    by (simp add: copy_to_label_def Let_def)
  have "dest_files fs' = (dest_files fs)(d := List.insert a (dest_files fs d))"
    unfolding fs' dest_files_update by simp
  moreover have "staged fs' = removeAll a (staged fs)" "unclassified fs' = unclassified fs"
    "staging_exists fs' = staging_exists fs"
    by (simp_all add: fs')
  ultimately show ?thesis using c a by blast
qed

lemma copy_to_label_Inl:
  assumes "copy_to_label cfg label a fs = Inl (e, fs')"
  shows "staged fs' = staged fs \<and> unclassified fs' = unclassified fs \<and>
         staging_exists fs' = staging_exists fs \<and> dest_files fs' = dest_files fs"
  using assms
  by (auto simp: copy_to_label_def Let_def split: option.splits if_splits)

lemma move_unclassified_Inr:
  assumes "move_unclassified a fs = Inr fs'" and "a \<in> set (staged fs)"
  shows "staged fs' = removeAll a (staged fs) \<and>
         unclassified fs' = Some (unclassified_files fs @ [a]) \<and>
         a \<notin> set (unclassified_files fs) \<and>
         staging_exists fs' = staging_exists fs \<and> destinations fs' = destinations fs"
  using assms
  by (auto simp: move_unclassified_def Let_def split: if_splits)

lemma move_unclassified_absent:
  assumes "a \<notin> set (staged fs)"
  shows "staged (final_fs (move_unclassified a fs)) = staged fs \<and>
         unclassified_files (final_fs (move_unclassified a fs)) = unclassified_files fs \<and>
         staging_exists (final_fs (move_unclassified a fs)) = staging_exists fs \<and>
         destinations (final_fs (move_unclassified a fs)) = destinations fs"
  using assms
  by (auto simp: move_unclassified_def Let_def unclassified_files_def split: if_splits)

lemma move_unclassified_Inl:
  assumes "move_unclassified a fs = Inl (e, fs')"
  shows "staged fs' = staged fs \<and> unclassified_files fs' = unclassified_files fs \<and>
         staging_exists fs' = staging_exists fs \<and> destinations fs' = destinations fs"
  using assms
  by (auto simp: move_unclassified_def Let_def unclassified_files_def split: if_splits)


lemma copy_to_label_final:
  "staging_exists (final_fs (copy_to_label cfg l a fs)) = staging_exists fs"
  "unclassified (final_fs (copy_to_label cfg l a fs)) = unclassified fs"
  "b \<noteq> a \<Longrightarrow> b \<in> set (staged (final_fs (copy_to_label cfg l a fs))) \<longleftrightarrow> b \<in> set (staged fs)"
  "b \<noteq> a \<Longrightarrow> b \<in> set (dest_files (final_fs (copy_to_label cfg l a fs)) d) \<longleftrightarrow> b \<in> set (dest_files fs d)"
  "a \<notin> set (staged fs) \<Longrightarrow> staged (final_fs (copy_to_label cfg l a fs)) = staged fs"
  "a \<notin> set (staged fs) \<Longrightarrow> dest_files (final_fs (copy_to_label cfg l a fs)) = dest_files fs"
proof -
  show "staging_exists (final_fs (copy_to_label cfg l a fs)) = staging_exists fs"
    by (cases "copy_to_label cfg l a fs") (auto dest: copy_to_label_Inl copy_to_label_Inr)
  show "unclassified (final_fs (copy_to_label cfg l a fs)) = unclassified fs"
    by (cases "copy_to_label cfg l a fs") (auto dest: copy_to_label_Inl copy_to_label_Inr)
  show "b \<in> set (staged (final_fs (copy_to_label cfg l a fs))) \<longleftrightarrow> b \<in> set (staged fs)"
    if "b \<noteq> a"
    using that
    by (cases "copy_to_label cfg l a fs") (auto dest!: copy_to_label_Inl copy_to_label_Inr)
  show "b \<in> set (dest_files (final_fs (copy_to_label cfg l a fs)) d) \<longleftrightarrow> b \<in> set (dest_files fs d)"
    if "b \<noteq> a"
    using that
    by (cases "copy_to_label cfg l a fs")
      (auto dest!: copy_to_label_Inl copy_to_label_Inr split: if_splits)
  show "staged (final_fs (copy_to_label cfg l a fs)) = staged fs" if "a \<notin> set (staged fs)"
    using that
    by (cases "copy_to_label cfg l a fs") (auto dest!: copy_to_label_Inl copy_to_label_Inr)
  show "dest_files (final_fs (copy_to_label cfg l a fs)) = dest_files fs" if "a \<notin> set (staged fs)"
    using that
    by (cases "copy_to_label cfg l a fs") (auto dest!: copy_to_label_Inl copy_to_label_Inr)
qed

lemma move_unclassified_final:
  "staging_exists (final_fs (move_unclassified a fs)) = staging_exists fs"
  "destinations (final_fs (move_unclassified a fs)) = destinations fs"
  "b \<noteq> a \<Longrightarrow> b \<in> set (staged (final_fs (move_unclassified a fs))) \<longleftrightarrow> b \<in> set (staged fs)"
  "b \<noteq> a \<Longrightarrow> b \<in> set (unclassified_files (final_fs (move_unclassified a fs))) \<longleftrightarrow> b \<in> set (unclassified_files fs)"
  "a \<notin> set (staged fs) \<Longrightarrow> staged (final_fs (move_unclassified a fs)) = staged fs"
  "a \<notin> set (staged fs) \<Longrightarrow> unclassified_files (final_fs (move_unclassified a fs)) = unclassified_files fs"
  by (auto simp: move_unclassified_def Let_def unclassified_files_def split: if_splits)

lemma subjectCheck_present:
  "map_of md key = Some m \<Longrightarrow>
     subjectCheck md key ks = Inr (find (\<lambda>s. sublist s (subject m)) ks)"
  by (induction ks) auto

lemma bodyTitleCheck_present:
  "map_of md key = Some m \<Longrightarrow>
     bodyTitleCheck md key ks = Inr (find (\<lambda>t. prefix t (body m)) ks)"
  by (induction ks) auto

lemma subjectCheck_Inl: "subjectCheck md key ks = Inl e \<Longrightarrow> e = MailKeyError key \<and> map_of md key = None"
  by (induction ks) (auto split: option.splits if_splits)

lemma bodyTitleCheck_Inl: "bodyTitleCheck md key ks = Inl e \<Longrightarrow> e = MailKeyError key \<and> map_of md key = None"
  by (induction ks) (auto split: option.splits if_splits)

text \<open>What one pass of the inner loop can do: one of three things.\<close>

lemma route_cases:
  "(\<exists>e. route md cfg a key fs = Inl (e, fs)) \<or>
   (\<exists>l. route md cfg a key fs = copy_to_label cfg l a fs) \<or>
   route md cfg a key fs = move_unclassified a fs"
  unfolding route_def by (auto split: sum.splits option.splits)

lemma unclassified_files_cong: "unclassified fs' = unclassified fs \<Longrightarrow> unclassified_files fs' = unclassified_files fs"
  by (simp add: unclassified_files_def)

lemma dest_files_cong: "destinations fs' = destinations fs \<Longrightarrow> dest_files fs' = dest_files fs"
  by (rule ext) (simp add: dest_files_def)

lemma route_final:
  "staging_exists (final_fs (route md cfg a key fs)) = staging_exists fs"
  "b \<noteq> a \<Longrightarrow> b \<in> set (staged (final_fs (route md cfg a key fs))) \<longleftrightarrow> b \<in> set (staged fs)"
  "b \<noteq> a \<Longrightarrow> b \<in> set (dest_files (final_fs (route md cfg a key fs)) d) \<longleftrightarrow> b \<in> set (dest_files fs d)"
  "b \<noteq> a \<Longrightarrow> b \<in> set (unclassified_files (final_fs (route md cfg a key fs))) \<longleftrightarrow> b \<in> set (unclassified_files fs)"
  "a \<notin> set (staged fs) \<Longrightarrow> staged (final_fs (route md cfg a key fs)) = staged fs"
  "a \<notin> set (staged fs) \<Longrightarrow> dest_files (final_fs (route md cfg a key fs)) = dest_files fs"
  "a \<notin> set (staged fs) \<Longrightarrow> unclassified_files (final_fs (route md cfg a key fs)) = unclassified_files fs"
proof -
  consider (raise) e where "route md cfg a key fs = Inl (e, fs)"
    | (copy) l where "route md cfg a key fs = copy_to_label cfg l a fs"
    | (move) "route md cfg a key fs = move_unclassified a fs"
    using route_cases [of md cfg a key fs] by blast
  note cs = this
  show "staging_exists (final_fs (route md cfg a key fs)) = staging_exists fs"
    by (cases rule: cs) (simp_all add: copy_to_label_final move_unclassified_final)
  show "b \<in> set (staged (final_fs (route md cfg a key fs))) \<longleftrightarrow> b \<in> set (staged fs)"
    if "b \<noteq> a"
    using that by (cases rule: cs) (simp_all add: copy_to_label_final move_unclassified_final)
  show "b \<in> set (dest_files (final_fs (route md cfg a key fs)) d) \<longleftrightarrow> b \<in> set (dest_files fs d)"
    if "b \<noteq> a"
    using that
    by (cases rule: cs)
      (simp_all add: copy_to_label_final dest_files_cong [OF move_unclassified_final(2)])
  show "b \<in> set (unclassified_files (final_fs (route md cfg a key fs))) \<longleftrightarrow> b \<in> set (unclassified_files fs)"
    if "b \<noteq> a"
    using that
    by (cases rule: cs)
      (simp_all add: move_unclassified_final unclassified_files_cong [OF copy_to_label_final(2)])
  show "staged (final_fs (route md cfg a key fs)) = staged fs" if "a \<notin> set (staged fs)"
    using that by (cases rule: cs) (simp_all add: copy_to_label_final move_unclassified_final)
  show "dest_files (final_fs (route md cfg a key fs)) = dest_files fs" if "a \<notin> set (staged fs)"
    using that
    by (cases rule: cs)
      (simp_all add: copy_to_label_final dest_files_cong [OF move_unclassified_final(2)])
  show "unclassified_files (final_fs (route md cfg a key fs)) = unclassified_files fs"
    if "a \<notin> set (staged fs)"
    using that
    by (cases rule: cs)
      (simp_all add: move_unclassified_final unclassified_files_cong [OF copy_to_label_final(2)])
qed


text \<open>A property of the file system that every pass keeps is kept by both loops.\<close>

lemma route_keys_preserves:
  assumes "\<And>key fs. key \<in> set ks \<Longrightarrow> Q fs \<Longrightarrow> Q (final_fs (route md cfg a key fs))"
      and "Q fs"
  shows "Q (final_fs (route_keys md cfg a ks fs))"
  using assms
proof (induction ks arbitrary: fs)
  case Nil
  then show ?case by simp
next
  case (Cons key ks)
  have step: "Q (final_fs (route md cfg a key fs))"
    using Cons.prems by simp
  show ?case
  proof (cases "route md cfg a key fs")
    case (Inl e)
    with step show ?thesis by simp
  next
    case (Inr fs')
    with step have "Q fs'" by simp
    then have "Q (final_fs (route_keys md cfg a ks fs'))"
      using Cons.IH Cons.prems(1) by simp
    with Inr show ?thesis by simp
  qed
qed

lemma route_files_preserves:
  assumes "\<And>a key fs. a \<in> set xs \<Longrightarrow> key \<in> set (matching_keys a ad) \<Longrightarrow> Q fs
             \<Longrightarrow> Q (final_fs (route md cfg a key fs))"
      and "Q fs"
  shows "Q (final_fs (route_files md ad cfg xs fs))"
  using assms
proof (induction xs arbitrary: fs)
  case Nil
  then show ?case by simp
next
  case (Cons a xs)
  have step: "Q (final_fs (route_keys md cfg a (matching_keys a ad) fs))"
  proof (rule route_keys_preserves [where Q = Q])
    show "Q fs" by (rule Cons.prems(2))
  next
    fix key f
    assume "key \<in> set (matching_keys a ad)" and "Q f"
    then show "Q (final_fs (route md cfg a key f))"
      using Cons.prems(1) [of a key f] by simp
  qed
  show ?case
  proof (cases "route_keys md cfg a (matching_keys a ad) fs")
    case (Inl e)
    with step show ?thesis by simp
  next
    case (Inr fs')
    with step have "Q fs'" by simp
    then have "Q (final_fs (route_files md ad cfg xs fs'))"
      using Cons.IH Cons.prems(1) by simp
    with Inr show ?thesis by simp
  qed
qed

lemma route_files_staging_exists:
  "staging_exists (final_fs (route_files md ad cfg xs fs)) = staging_exists fs"
  by (rule route_files_preserves [where Q = "\<lambda>f. staging_exists f = staging_exists fs"])
    (simp_all add: route_final)

text \<open>The cleanup at the end changes nothing but the staging directory itself.\<close>

lemma filter_final:
  assumes "staging_exists fs"
  shows "\<exists>b. final_fs (filter_office365_attachments md ad cfg fs) =
           (final_fs (route_files md ad cfg (listdir fs) fs))\<lparr>staging_exists := b\<rparr>"
proof (cases "route_files md ad cfg (listdir fs) fs")
  case (Inl e)
  obtain err fs' where e: "e = (err, fs')" by (cases e)
  show ?thesis
    by (rule exI [of _ "staging_exists fs'"])
      (simp add: filter_office365_attachments_def assms Inl e)
next
  case (Inr fs')
  show ?thesis
  proof (cases "listdir fs' = []")
    case True
    show ?thesis
      by (rule exI [of _ False]) (simp add: filter_office365_attachments_def assms Inr True)
  next
    case False
    show ?thesis
      by (rule exI [of _ "staging_exists fs'"])
        (simp add: filter_office365_attachments_def assms Inr False)
  qed
qed

lemma filter_final_frame:
  assumes "staging_exists fs"
  shows "staged (final_fs (filter_office365_attachments md ad cfg fs)) =
           staged (final_fs (route_files md ad cfg (listdir fs) fs))"
    and "dest_files (final_fs (filter_office365_attachments md ad cfg fs)) =
           dest_files (final_fs (route_files md ad cfg (listdir fs) fs))"
    and "unclassified_files (final_fs (filter_office365_attachments md ad cfg fs)) =
           unclassified_files (final_fs (route_files md ad cfg (listdir fs) fs))"
proof -
  obtain b where b: "final_fs (filter_office365_attachments md ad cfg fs) =
           (final_fs (route_files md ad cfg (listdir fs) fs))\<lparr>staging_exists := b\<rparr>"
    using filter_final [OF assms] by blast
  show "staged (final_fs (filter_office365_attachments md ad cfg fs)) =
           staged (final_fs (route_files md ad cfg (listdir fs) fs))"
    by (simp add: b)
  show "dest_files (final_fs (filter_office365_attachments md ad cfg fs)) =
           dest_files (final_fs (route_files md ad cfg (listdir fs) fs))"
    by (rule dest_files_cong) (simp add: b)
  show "unclassified_files (final_fs (filter_office365_attachments md ad cfg fs)) =
           unclassified_files (final_fs (route_files md ad cfg (listdir fs) fs))"
    by (rule unclassified_files_cong) (simp add: b)
qed

lemma route_files_orphan:
  assumes "matching_keys a ad = []"
  shows "(a \<in> set (staged (final_fs (route_files md ad cfg xs fs))) \<longleftrightarrow> a \<in> set (staged fs)) \<and>
         (a \<in> set (dest_files (final_fs (route_files md ad cfg xs fs)) d) \<longleftrightarrow> a \<in> set (dest_files fs d)) \<and>
         (a \<in> set (unclassified_files (final_fs (route_files md ad cfg xs fs)))
            \<longleftrightarrow> a \<in> set (unclassified_files fs))"
proof (rule route_files_preserves [where Q = "\<lambda>f.
         (a \<in> set (staged f) \<longleftrightarrow> a \<in> set (staged fs)) \<and>
         (a \<in> set (dest_files f d) \<longleftrightarrow> a \<in> set (dest_files fs d)) \<and>
         (a \<in> set (unclassified_files f) \<longleftrightarrow> a \<in> set (unclassified_files fs))"])
  fix b key f
  assume "key \<in> set (matching_keys b ad)"
  with assms have "a \<noteq> b" by auto
  moreover assume "(a \<in> set (staged f) \<longleftrightarrow> a \<in> set (staged fs)) \<and>
         (a \<in> set (dest_files f d) \<longleftrightarrow> a \<in> set (dest_files fs d)) \<and>
         (a \<in> set (unclassified_files f) \<longleftrightarrow> a \<in> set (unclassified_files fs))"
  ultimately show "(a \<in> set (staged (final_fs (route md cfg b key f))) \<longleftrightarrow> a \<in> set (staged fs)) \<and>
         (a \<in> set (dest_files (final_fs (route md cfg b key f)) d) \<longleftrightarrow> a \<in> set (dest_files fs d)) \<and>
         (a \<in> set (unclassified_files (final_fs (route md cfg b key f)))
            \<longleftrightarrow> a \<in> set (unclassified_files fs))"
    by (simp add: route_final)
qed simp



lemma route_keys_absent:
  assumes "a \<notin> set (staged fs)"
  shows "staged (final_fs (route_keys md cfg a ks fs)) = staged fs \<and>
         dest_files (final_fs (route_keys md cfg a ks fs)) = dest_files fs \<and>
         unclassified_files (final_fs (route_keys md cfg a ks fs)) = unclassified_files fs"
proof (rule route_keys_preserves [where Q = "\<lambda>f. staged f = staged fs \<and>
         dest_files f = dest_files fs \<and> unclassified_files f = unclassified_files fs"])
  fix key f
  assume "staged f = staged fs \<and> dest_files f = dest_files fs \<and>
          unclassified_files f = unclassified_files fs"
  moreover from this assms have "a \<notin> set (staged f)" by simp
  ultimately show "staged (final_fs (route md cfg a key f)) = staged fs \<and>
         dest_files (final_fs (route md cfg a key f)) = dest_files fs \<and>
         unclassified_files (final_fs (route md cfg a key f)) = unclassified_files fs"
    by (simp add: route_final)
qed simp

section \<open>Files that no message owns\<close>

text \<open>
  Claim C1, as amended. The three rule tiers, the filename tier among them, sit inside the
  loop over the owning messages. A staged file that no index entry matches is therefore
  never looked at: after the run, ended normally or not, it is still in the staging
  directory, and it has been added neither to a destination nor to \<^verbatim>\<open>Unclassified\<close>,
  whatever its stem is.
\<close>

theorem orphan_file_stays_in_staging:
  assumes "staging_exists fs" and "a \<in> set (staged fs)" and "matching_keys a ad = []"
  shows "a \<in> set (staged (final_fs (filter_office365_attachments md ad cfg fs))) \<and>
         (a \<in> set (dest_files (final_fs (filter_office365_attachments md ad cfg fs)) d)
            \<longleftrightarrow> a \<in> set (dest_files fs d)) \<and>
         (a \<in> set (unclassified_files (final_fs (filter_office365_attachments md ad cfg fs)))
            \<longleftrightarrow> a \<in> set (unclassified_files fs))"
  using route_files_orphan [OF assms(3), of md cfg "listdir fs" fs d] assms(2)
  by (simp add: filter_final_frame [OF assms(1)])

theorem orphan_file_stays_in_staging_witness:
  "staging_exists \<lparr>staging_exists = True, staged = [''170792.pdf''], unclassified = None,
      destinations = []\<rparr> \<and>
   ''170792.pdf'' \<in> set (staged \<lparr>staging_exists = True, staged = [''170792.pdf''],
      unclassified = None, destinations = []\<rparr>) \<and>
   matching_keys ''170792.pdf'' [(''m1'', [''report.pdf''])] = [] \<and>
   ''170792.pdf'' \<in> set (staged (final_fs (filter_office365_attachments []
      [(''m1'', [''report.pdf''])] (Some [(''Pension C'', ''/portfolios/pension_c'')])
      \<lparr>staging_exists = True, staged = [''170792.pdf''], unclassified = None,
        destinations = []\<rparr>)))"
proof -
  have h1: "staging_exists \<lparr>staging_exists = True, staged = [''170792.pdf''],
      unclassified = None, destinations = []\<rparr>" by simp
  have h2: "''170792.pdf'' \<in> set (staged \<lparr>staging_exists = True, staged = [''170792.pdf''],
      unclassified = None, destinations = []\<rparr>)" by simp
  have h3: "matching_keys ''170792.pdf'' [(''m1'', [''report.pdf''])] = []"
    by code_simp
  from orphan_file_stays_in_staging [OF h1 h2 h3] h1 h2 h3 show ?thesis by blast
qed

text \<open>
  Claim C1 as stated fails: the file \<^verbatim>\<open>170792.pdf\<close> has the stem \<^verbatim>\<open>170792\<close> of the filename
  table, no message owns it, and the run leaves the file system as it found it, with the
  file still staged and nothing under the destination of \<^verbatim>\<open>Pension C\<close>.
\<close>

theorem orphan_stem_not_routed_counterexample:
  "map_of DocName_filter (fst (splitext ''170792.pdf'')) = Some ''Pension C'' \<and>
   matching_keys ''170792.pdf'' [] = [] \<and>
   filter_office365_attachments [] [] (Some [(''Pension C'', ''/portfolios/pension_c'')])
      \<lparr>staging_exists = True, staged = [''170792.pdf''], unclassified = None,
        destinations = []\<rparr> =
    Inr \<lparr>staging_exists = True, staged = [''170792.pdf''], unclassified = None,
        destinations = []\<rparr>"
  by code_simp

section \<open>Rule precedence\<close>

lemma find_keys:
  "find P (map fst tbl) = map_option fst (find (\<lambda>(k, l). P k) tbl)"
  by (induction tbl) auto

lemma find_label:
  "distinct (map fst tbl) \<Longrightarrow> find (\<lambda>(k, l). P k) tbl = Some (k, l) \<Longrightarrow> map_of tbl k = Some l"
  by (induction tbl) (auto split: if_splits simp: rev_image_eqI)

lemma distinct_tables:
  "distinct (map fst Subject_filter)" "distinct (map fst BodyTitle_filter)"
  by (simp_all add: Subject_filter_def BodyTitle_filter_def)

lemma copy_to_label_delivers:
  assumes "map_of data label = Some dest" and "a \<in> set (staged fs)"
  shows "\<exists>fs'. copy_to_label (Some data) label a fs = Inr fs' \<and>
           a \<in> set (dest_files fs' dest) \<and> a \<notin> set (staged fs')"
proof -
  obtain fs' where r: "copy_to_label (Some data) label a fs = Inr fs'"
    using assms by (simp add: copy_to_label_def Let_def)
  from copy_to_label_Inr [OF r] assms(1)
  have "staged fs' = removeAll a (staged fs)"
    "dest_files fs' = (dest_files fs)(dest := List.insert a (dest_files fs dest))"
    by auto
  then have "a \<in> set (dest_files fs' dest)" "a \<notin> set (staged fs')" by simp_all
  with r show ?thesis by blast
qed

lemma route_tiers:
  assumes "map_of md key = Some m"
  shows "route md cfg a key fs =
           (case find (\<lambda>(s, l). sublist s (subject m)) Subject_filter of
              Some (s, label) \<Rightarrow> copy_to_label cfg label a fs
            | None \<Rightarrow>
                (case find (\<lambda>(t, l). prefix t (body m)) BodyTitle_filter of
                   Some (t, label) \<Rightarrow> copy_to_label cfg label a fs
                 | None \<Rightarrow>
                     (case map_of DocName_filter (fst (splitext a)) of
                        Some label \<Rightarrow> copy_to_label cfg label a fs
                      | None \<Rightarrow> move_unclassified a fs)))"
proof -
  let ?S = "find (\<lambda>(s, l). sublist s (subject m)) Subject_filter"
  let ?B = "find (\<lambda>(t, l). prefix t (body m)) BodyTitle_filter"
  show ?thesis
  proof (cases ?S)
    case None
    show ?thesis
    proof (cases ?B)
      case B: None
      show ?thesis
        by (simp add: route_def subjectCheck_present [OF assms]
            bodyTitleCheck_present [OF assms] find_keys None B)
    next
      case B: (Some tl)
      obtain t l where tl: "tl = (t, l)" by (cases tl)
      have "map_of BodyTitle_filter t = Some l"
        using find_label [OF distinct_tables(2)] B tl by simp
      then show ?thesis
        by (simp add: route_def subjectCheck_present [OF assms]
            bodyTitleCheck_present [OF assms] find_keys None B tl)
    qed
  next
    case (Some sl)
    obtain s l where sl: "sl = (s, l)" by (cases sl)
    have "map_of Subject_filter s = Some l"
      using find_label [OF distinct_tables(1)] Some sl by simp
    then show ?thesis
      by (simp add: route_def subjectCheck_present [OF assms] find_keys Some sl)
  qed
qed

lemma route_files_append:
  "route_files md ad cfg xs1 fs = Inr fs1 \<Longrightarrow>
     route_files md ad cfg (xs1 @ xs2) fs = route_files md ad cfg xs2 fs1"
proof (induction xs1 arbitrary: fs)
  case Nil
  then show ?case by simp
next
  case (Cons x xs1)
  show ?case
  proof (cases "route_keys md cfg x (matching_keys x ad) fs")
    case (Inl e)
    with Cons.prems show ?thesis by simp
  next
    case (Inr fs0)
    with Cons.prems have "route_files md ad cfg xs1 fs0 = Inr fs1" by simp
    from Cons.IH [OF this] Inr show ?thesis by simp
  qed
qed

lemma route_files_other:
  assumes "a \<notin> set xs"
  shows "(a \<in> set (staged (final_fs (route_files md ad cfg xs fs))) \<longleftrightarrow> a \<in> set (staged fs)) \<and>
         (\<forall>d. a \<in> set (dest_files (final_fs (route_files md ad cfg xs fs)) d)
            \<longleftrightarrow> a \<in> set (dest_files fs d)) \<and>
         (a \<in> set (unclassified_files (final_fs (route_files md ad cfg xs fs)))
            \<longleftrightarrow> a \<in> set (unclassified_files fs))"
proof (rule route_files_preserves [where Q = "\<lambda>f.
         (a \<in> set (staged f) \<longleftrightarrow> a \<in> set (staged fs)) \<and>
         (\<forall>d. a \<in> set (dest_files f d) \<longleftrightarrow> a \<in> set (dest_files fs d)) \<and>
         (a \<in> set (unclassified_files f) \<longleftrightarrow> a \<in> set (unclassified_files fs))"])
  fix b key f
  assume "b \<in> set xs"
  with assms have "a \<noteq> b" by auto
  moreover assume "(a \<in> set (staged f) \<longleftrightarrow> a \<in> set (staged fs)) \<and>
         (\<forall>d. a \<in> set (dest_files f d) \<longleftrightarrow> a \<in> set (dest_files fs d)) \<and>
         (a \<in> set (unclassified_files f) \<longleftrightarrow> a \<in> set (unclassified_files fs))"
  ultimately show "(a \<in> set (staged (final_fs (route md cfg b key f))) \<longleftrightarrow> a \<in> set (staged fs)) \<and>
         (\<forall>d. a \<in> set (dest_files (final_fs (route md cfg b key f)) d)
            \<longleftrightarrow> a \<in> set (dest_files fs d)) \<and>
         (a \<in> set (unclassified_files (final_fs (route md cfg b key f)))
            \<longleftrightarrow> a \<in> set (unclassified_files fs))"
    by (simp add: route_final)
qed simp

lemma route_staged_subset:
  "set (staged (final_fs (route md cfg b key f))) \<subseteq> set (staged f)"
proof
  fix x
  assume x: "x \<in> set (staged (final_fs (route md cfg b key f)))"
  show "x \<in> set (staged f)"
  proof (cases "x = b")
    case False
    with x show ?thesis by (simp add: route_final(2))
  next
    case True
    show ?thesis
    proof (rule ccontr)
      assume n: "x \<notin> set (staged f)"
      with True have "b \<notin> set (staged f)" by simp
      from route_final(5) [OF this] x n show False by simp
    qed
  qed
qed

lemma route_files_staged_subset:
  "set (staged (final_fs (route_files md ad cfg xs fs))) \<subseteq> set (staged fs)"
proof (rule route_files_preserves [where Q = "\<lambda>f. set (staged f) \<subseteq> set (staged fs)"])
  fix b key and f :: filesystem
  assume "set (staged f) \<subseteq> set (staged fs)"
  with route_staged_subset [of md cfg b key f]
  show "set (staged (final_fs (route md cfg b key f))) \<subseteq> set (staged fs)" by blast
qed simp

text \<open>
  Once the pass for the first owner has taken the file out of the staging directory,
  nothing later in the run touches it.
\<close>

lemma placed_stays:
  assumes "staging_exists fs" and "listdir fs = xs1 @ a # xs2" and "a \<notin> set xs2"
      and "route_files md ad cfg xs1 fs = Inr fs1"
      and "matching_keys a ad = key # keys"
      and "route md cfg a key fs1 = Inr fs2" and "a \<notin> set (staged fs2)"
  shows "a \<notin> set (staged (final_fs (filter_office365_attachments md ad cfg fs))) \<and>
     (\<forall>d. a \<in> set (dest_files (final_fs (filter_office365_attachments md ad cfg fs)) d)
        \<longleftrightarrow> a \<in> set (dest_files fs2 d)) \<and>
     (a \<in> set (unclassified_files (final_fs (filter_office365_attachments md ad cfg fs)))
        \<longleftrightarrow> a \<in> set (unclassified_files fs2))"
proof -
  let ?K = "route_keys md cfg a keys fs2"
  let ?R = "route_files md ad cfg (listdir fs) fs"
  have K: "staged (final_fs ?K) = staged fs2" "dest_files (final_fs ?K) = dest_files fs2"
    "unclassified_files (final_fs ?K) = unclassified_files fs2"
    using route_keys_absent [OF assms(7), of md cfg keys] by simp_all
  have R: "?R = (case ?K of Inl e \<Rightarrow> Inl e | Inr fs3 \<Rightarrow> route_files md ad cfg xs2 fs3)"
    by (simp add: assms(2) route_files_append [OF assms(4)] assms(5) assms(6))
  have "a \<notin> set (staged (final_fs ?R)) \<and>
     (\<forall>d. a \<in> set (dest_files (final_fs ?R) d) \<longleftrightarrow> a \<in> set (dest_files fs2 d)) \<and>
     (a \<in> set (unclassified_files (final_fs ?R)) \<longleftrightarrow> a \<in> set (unclassified_files fs2))"
  proof (cases ?K)
    case (Inl e)
    with R have "final_fs ?R = final_fs ?K" by simp
    with K assms(7) show ?thesis by simp
  next
    case (Inr fs3)
    with R have "final_fs ?R = final_fs (route_files md ad cfg xs2 fs3)" by simp
    moreover from Inr have "fs3 = final_fs ?K" by simp
    ultimately show ?thesis
      using route_files_other [OF assms(3), of md ad cfg fs3] K assms(7) by simp
  qed
  then show ?thesis by (simp add: filter_final_frame [OF assms(1)])
qed

text \<open>
  Claim C2. Take a file of the staging directory that the run reaches, the files listed
  before it being processed without an exception, and let \<open>m\<close> be the entry of its first
  owner in the message index. The run places the file by the first satisfied tier of
  \<open>m\<close>, and by that tier alone. When the subject contains a key of the subject table, the
  file ends in the directory configured for the label of the first such key, whatever the
  body and the filename are. Otherwise, when the body starts with a key of the body table,
  it ends in the directory of the first such key. Otherwise, when its stem is a key of the
  filename table, it ends in the directory of that label. Otherwise it ends in
  \<^verbatim>\<open>Unclassified\<close>. In each case the file is no longer staged and no other directory has
  received it. The label of the matched rule has to be configured; for the last tier, the
  name \<^verbatim>\<open>Unclassified\<close> is not taken by a staged file and \<^verbatim>\<open>Unclassified\<close> does not hold the
  name yet.
\<close>

theorem staged_file_goes_to_first_satisfied_tier:
  assumes "staging_exists fs" and "distinct (listdir fs)" and "listdir fs = xs1 @ a # xs2"
      and "a \<in> set (staged fs)"
      and "route_files md ad cfg xs1 fs = Inr fs1"
      and "matching_keys a ad = key # keys" and "map_of md key = Some m"
  shows
    "(\<forall>s label data dest.
        find (\<lambda>(s, l). sublist s (subject m)) Subject_filter = Some (s, label) \<longrightarrow>
        cfg = Some data \<longrightarrow> map_of data label = Some dest \<longrightarrow>
          a \<in> set (dest_files (final_fs (filter_office365_attachments md ad cfg fs)) dest) \<and>
          a \<notin> set (staged (final_fs (filter_office365_attachments md ad cfg fs))) \<and>
          (\<forall>d. d \<noteq> dest \<longrightarrow>
             (a \<in> set (dest_files (final_fs (filter_office365_attachments md ad cfg fs)) d)
                \<longleftrightarrow> a \<in> set (dest_files fs d))) \<and>
          (a \<in> set (unclassified_files (final_fs (filter_office365_attachments md ad cfg fs)))
             \<longleftrightarrow> a \<in> set (unclassified_files fs))) \<and>
     (\<forall>t label data dest.
        find (\<lambda>(s, l). sublist s (subject m)) Subject_filter = None \<longrightarrow>
        find (\<lambda>(t, l). prefix t (body m)) BodyTitle_filter = Some (t, label) \<longrightarrow>
        cfg = Some data \<longrightarrow> map_of data label = Some dest \<longrightarrow>
          a \<in> set (dest_files (final_fs (filter_office365_attachments md ad cfg fs)) dest) \<and>
          a \<notin> set (staged (final_fs (filter_office365_attachments md ad cfg fs))) \<and>
          (\<forall>d. d \<noteq> dest \<longrightarrow>
             (a \<in> set (dest_files (final_fs (filter_office365_attachments md ad cfg fs)) d)
                \<longleftrightarrow> a \<in> set (dest_files fs d))) \<and>
          (a \<in> set (unclassified_files (final_fs (filter_office365_attachments md ad cfg fs)))
             \<longleftrightarrow> a \<in> set (unclassified_files fs))) \<and>
     (\<forall>label data dest.
        find (\<lambda>(s, l). sublist s (subject m)) Subject_filter = None \<longrightarrow>
        find (\<lambda>(t, l). prefix t (body m)) BodyTitle_filter = None \<longrightarrow>
        map_of DocName_filter (fst (splitext a)) = Some label \<longrightarrow>
        cfg = Some data \<longrightarrow> map_of data label = Some dest \<longrightarrow>
          a \<in> set (dest_files (final_fs (filter_office365_attachments md ad cfg fs)) dest) \<and>
          a \<notin> set (staged (final_fs (filter_office365_attachments md ad cfg fs))) \<and>
          (\<forall>d. d \<noteq> dest \<longrightarrow>
             (a \<in> set (dest_files (final_fs (filter_office365_attachments md ad cfg fs)) d)
                \<longleftrightarrow> a \<in> set (dest_files fs d))) \<and>
          (a \<in> set (unclassified_files (final_fs (filter_office365_attachments md ad cfg fs)))
             \<longleftrightarrow> a \<in> set (unclassified_files fs))) \<and>
     (find (\<lambda>(s, l). sublist s (subject m)) Subject_filter = None \<longrightarrow>
      find (\<lambda>(t, l). prefix t (body m)) BodyTitle_filter = None \<longrightarrow>
      map_of DocName_filter (fst (splitext a)) = None \<longrightarrow>
      ''Unclassified'' \<notin> set (staged fs) \<longrightarrow> a \<notin> set (unclassified_files fs) \<longrightarrow>
        a \<in> set (unclassified_files (final_fs (filter_office365_attachments md ad cfg fs))) \<and>
        a \<notin> set (staged (final_fs (filter_office365_attachments md ad cfg fs))) \<and>
        (\<forall>d. a \<in> set (dest_files (final_fs (filter_office365_attachments md ad cfg fs)) d)
           \<longleftrightarrow> a \<in> set (dest_files fs d)))"
proof -
  let ?F = "final_fs (filter_office365_attachments md ad cfg fs)"
  from assms(2,3) have out1: "a \<notin> set xs1" and out2: "a \<notin> set xs2" by auto
  have fs1: "final_fs (route_files md ad cfg xs1 fs) = fs1" by (simp add: assms(5))
  from route_files_other [OF out1, of md ad cfg fs] assms(4)
  have a1: "a \<in> set (staged fs1)"
    and d1: "\<And>d. a \<in> set (dest_files fs1 d) \<longleftrightarrow> a \<in> set (dest_files fs d)"
    and u1: "a \<in> set (unclassified_files fs1) \<longleftrightarrow> a \<in> set (unclassified_files fs)"
    unfolding fs1 by simp_all
  from route_files_staged_subset [of md ad cfg xs1 fs]
  have sub1: "set (staged fs1) \<subseteq> set (staged fs)" unfolding fs1 .
  note tiers = route_tiers [OF assms(7), of cfg a fs1]
  have by_label: "a \<in> set (dest_files ?F dest) \<and> a \<notin> set (staged ?F) \<and>
      (\<forall>d. d \<noteq> dest \<longrightarrow> (a \<in> set (dest_files ?F d) \<longleftrightarrow> a \<in> set (dest_files fs d))) \<and>
      (a \<in> set (unclassified_files ?F) \<longleftrightarrow> a \<in> set (unclassified_files fs))"
    if r: "route md cfg a key fs1 = copy_to_label cfg label a fs1"
      and c: "cfg = Some data" "map_of data label = Some dest"
    for label data dest
  proof -
    from copy_to_label_delivers [OF c(2) a1] obtain fs2 where
      cp: "copy_to_label (Some data) label a fs1 = Inr fs2"
      and inn: "a \<in> set (dest_files fs2 dest)" and gone: "a \<notin> set (staged fs2)"
      by blast
    from copy_to_label_Inr [OF cp] c(2)
    have df: "dest_files fs2 = (dest_files fs1)(dest := List.insert a (dest_files fs1 dest))"
      and un: "unclassified fs2 = unclassified fs1"
      by auto
    from un have uf: "unclassified_files fs2 = unclassified_files fs1"
      by (rule unclassified_files_cong)
    from r c(1) cp have r2: "route md cfg a key fs1 = Inr fs2" by simp
    from placed_stays [OF assms(1) assms(3) out2 assms(5) assms(6) r2 gone]
    have "a \<notin> set (staged ?F)"
      and "\<And>d. a \<in> set (dest_files ?F d) \<longleftrightarrow> a \<in> set (dest_files fs2 d)"
      and "a \<in> set (unclassified_files ?F) \<longleftrightarrow> a \<in> set (unclassified_files fs2)"
      by simp_all
    with inn df uf d1 u1 show ?thesis by simp
  qed
  have by_move: "a \<in> set (unclassified_files ?F) \<and> a \<notin> set (staged ?F) \<and>
      (\<forall>d. a \<in> set (dest_files ?F d) \<longleftrightarrow> a \<in> set (dest_files fs d))"
    if r: "route md cfg a key fs1 = move_unclassified a fs1"
      and nodir: "''Unclassified'' \<notin> set (staged fs)" and fresh: "a \<notin> set (unclassified_files fs)"
  proof -
    from nodir sub1 have n1: "''Unclassified'' \<notin> set (staged fs1)" by blast
    with a1 have ne: "a \<noteq> ''Unclassified''" by auto
    from fresh u1 have f1: "a \<notin> set (unclassified_files fs1)" by simp
    obtain fs2 where mv: "move_unclassified a fs1 = Inr fs2"
      using n1 ne f1 a1 by (simp add: move_unclassified_def Let_def)
    from move_unclassified_Inr [OF mv a1]
    have st: "staged fs2 = removeAll a (staged fs1)"
      and un: "unclassified fs2 = Some (unclassified_files fs1 @ [a])"
      and de: "destinations fs2 = destinations fs1"
      by simp_all
    from st have gone: "a \<notin> set (staged fs2)" by simp
    from un have inn: "a \<in> set (unclassified_files fs2)" by (simp add: unclassified_files_def)
    from de have df: "dest_files fs2 = dest_files fs1" by (rule dest_files_cong)
    from r mv have r2: "route md cfg a key fs1 = Inr fs2" by simp
    from placed_stays [OF assms(1) assms(3) out2 assms(5) assms(6) r2 gone]
    have "a \<notin> set (staged ?F)"
      and "\<And>d. a \<in> set (dest_files ?F d) \<longleftrightarrow> a \<in> set (dest_files fs2 d)"
      and "a \<in> set (unclassified_files ?F) \<longleftrightarrow> a \<in> set (unclassified_files fs2)"
      by simp_all
    with inn df d1 show ?thesis by simp
  qed
  show ?thesis
  proof (intro conjI allI impI)
    fix s label data dest
    assume S: "find (\<lambda>(s, l). sublist s (subject m)) Subject_filter = Some (s, label)"
      and c: "cfg = Some data" "map_of data label = Some dest"
    have r: "route md cfg a key fs1 = copy_to_label cfg label a fs1"
      by (simp add: tiers S)
    from by_label [OF this c]
    show "a \<in> set (dest_files ?F dest)" "a \<notin> set (staged ?F)"
      "a \<in> set (unclassified_files ?F) \<longleftrightarrow> a \<in> set (unclassified_files fs)"
      by simp_all
    fix d assume "d \<noteq> dest"
    with by_label [OF r c]
    show "a \<in> set (dest_files ?F d) \<longleftrightarrow> a \<in> set (dest_files fs d)" by simp
  next
    fix t label data dest
    assume S: "find (\<lambda>(s, l). sublist s (subject m)) Subject_filter = None"
      and B: "find (\<lambda>(t, l). prefix t (body m)) BodyTitle_filter = Some (t, label)"
      and c: "cfg = Some data" "map_of data label = Some dest"
    have r: "route md cfg a key fs1 = copy_to_label cfg label a fs1"
      by (simp add: tiers S B)
    from by_label [OF this c]
    show "a \<in> set (dest_files ?F dest)" "a \<notin> set (staged ?F)"
      "a \<in> set (unclassified_files ?F) \<longleftrightarrow> a \<in> set (unclassified_files fs)"
      by simp_all
    fix d assume "d \<noteq> dest"
    with by_label [OF r c]
    show "a \<in> set (dest_files ?F d) \<longleftrightarrow> a \<in> set (dest_files fs d)" by simp
  next
    fix label data dest
    assume S: "find (\<lambda>(s, l). sublist s (subject m)) Subject_filter = None"
      and B: "find (\<lambda>(t, l). prefix t (body m)) BodyTitle_filter = None"
      and D: "map_of DocName_filter (fst (splitext a)) = Some label"
      and c: "cfg = Some data" "map_of data label = Some dest"
    have r: "route md cfg a key fs1 = copy_to_label cfg label a fs1"
      by (simp add: tiers S B D)
    from by_label [OF this c]
    show "a \<in> set (dest_files ?F dest)" "a \<notin> set (staged ?F)"
      "a \<in> set (unclassified_files ?F) \<longleftrightarrow> a \<in> set (unclassified_files fs)"
      by simp_all
    fix d assume "d \<noteq> dest"
    with by_label [OF r c]
    show "a \<in> set (dest_files ?F d) \<longleftrightarrow> a \<in> set (dest_files fs d)" by simp
  next
    assume S: "find (\<lambda>(s, l). sublist s (subject m)) Subject_filter = None"
      and B: "find (\<lambda>(t, l). prefix t (body m)) BodyTitle_filter = None"
      and D: "map_of DocName_filter (fst (splitext a)) = None"
      and n: "''Unclassified'' \<notin> set (staged fs)" "a \<notin> set (unclassified_files fs)"
    have r: "route md cfg a key fs1 = move_unclassified a fs1"
      by (simp add: tiers S B D)
    from by_move [OF this n]
    show "a \<in> set (unclassified_files ?F)" "a \<notin> set (staged ?F)" by simp_all
    fix d
    from by_move [OF r n]
    show "a \<in> set (dest_files ?F d) \<longleftrightarrow> a \<in> set (dest_files fs d)" by simp
  qed
qed

theorem staged_file_goes_to_first_satisfied_tier_witness:
  "staging_exists example_staging \<and>
   distinct (listdir example_staging) \<and>
   listdir example_staging = [] @ ''fahes.pdf'' # [''oman.pdf'', ''170792.pdf'', ''notes.pdf''] \<and>
   ''fahes.pdf'' \<in> set (staged example_staging) \<and>
   route_files example_mail_dict example_attachment_dict (Some example_config)
      [] example_staging = Inr example_staging \<and>
   matching_keys ''fahes.pdf'' example_attachment_dict = ''m1'' # [] \<and>
   map_of example_mail_dict ''m1'' = Some mail_fahes \<and>
   listdir example_staging = [''fahes.pdf''] @ ''oman.pdf'' # [''170792.pdf'', ''notes.pdf''] \<and>
   ''oman.pdf'' \<in> set (staged example_staging) \<and>
   route_files example_mail_dict example_attachment_dict (Some example_config)
      [''fahes.pdf''] example_staging =
    Inr \<lparr>staging_exists = True, staged = [''oman.pdf'', ''170792.pdf'', ''notes.pdf''],
        unclassified = None, destinations = [(''/portfolios/fahes'', [''fahes.pdf''])]\<rparr> \<and>
   matching_keys ''oman.pdf'' example_attachment_dict = ''m2'' # [] \<and>
   map_of example_mail_dict ''m2'' = Some mail_oman \<and>
   listdir example_staging = [''fahes.pdf'', ''oman.pdf''] @ ''170792.pdf'' # [''notes.pdf''] \<and>
   ''170792.pdf'' \<in> set (staged example_staging) \<and>
   route_files example_mail_dict example_attachment_dict (Some example_config)
      [''fahes.pdf'', ''oman.pdf''] example_staging =
    Inr \<lparr>staging_exists = True, staged = [''170792.pdf'', ''notes.pdf''], unclassified = None,
        destinations = [(''/portfolios/fahes'', [''fahes.pdf'']),
          (''/portfolios/oman'', [''oman.pdf''])]\<rparr> \<and>
   matching_keys ''170792.pdf'' example_attachment_dict = ''m3'' # [] \<and>
   map_of example_mail_dict ''m3'' = Some mail_plain \<and>
   listdir example_staging = [''fahes.pdf'', ''oman.pdf'', ''170792.pdf''] @ ''notes.pdf'' # [] \<and>
   ''notes.pdf'' \<in> set (staged example_staging) \<and>
   route_files example_mail_dict example_attachment_dict (Some example_config)
      [''fahes.pdf'', ''oman.pdf'', ''170792.pdf''] example_staging =
    Inr \<lparr>staging_exists = True, staged = [''notes.pdf''], unclassified = None,
        destinations = [(''/portfolios/fahes'', [''fahes.pdf'']),
          (''/portfolios/oman'', [''oman.pdf'']),
          (''/portfolios/pension_c'', [''170792.pdf''])]\<rparr> \<and>
   matching_keys ''notes.pdf'' example_attachment_dict = ''m4'' # [] \<and>
   map_of example_mail_dict ''m4'' = Some mail_plain \<and>
   find (\<lambda>(s, l). sublist s (subject mail_fahes)) Subject_filter =
      Some (''[Not Virus Scanned] WOQOD - Fahes - Account Statement & Portfolio'', ''Fahes'') \<and>
   find (\<lambda>(t, l). prefix t (body mail_fahes)) BodyTitle_filter = Some (''OQIC'', ''Oman'') \<and>
   map_of example_config ''Fahes'' = Some ''/portfolios/fahes'' \<and>
   find (\<lambda>(s, l). sublist s (subject mail_oman)) Subject_filter = None \<and>
   find (\<lambda>(t, l). prefix t (body mail_oman)) BodyTitle_filter = Some (''OQIC'', ''Oman'') \<and>
   map_of example_config ''Oman'' = Some ''/portfolios/oman'' \<and>
   find (\<lambda>(s, l). sublist s (subject mail_plain)) Subject_filter = None \<and>
   find (\<lambda>(t, l). prefix t (body mail_plain)) BodyTitle_filter = None \<and>
   map_of DocName_filter (fst (splitext ''170792.pdf'')) = Some ''Pension C'' \<and>
   map_of example_config ''Pension C'' = Some ''/portfolios/pension_c'' \<and>
   map_of DocName_filter (fst (splitext ''notes.pdf'')) = None \<and>
   ''Unclassified'' \<notin> set (staged example_staging) \<and>
   ''notes.pdf'' \<notin> set (unclassified_files example_staging) \<and>
   filter_office365_attachments example_mail_dict example_attachment_dict
      (Some example_config) example_staging =
    Inr \<lparr>staging_exists = True, staged = [], unclassified = Some [''notes.pdf''],
        destinations = [(''/portfolios/fahes'', [''fahes.pdf'']),
          (''/portfolios/oman'', [''oman.pdf'']),
          (''/portfolios/pension_c'', [''170792.pdf''])]\<rparr> \<and>
   ''fahes.pdf'' \<in> set (dest_files (final_fs (filter_office365_attachments example_mail_dict example_attachment_dict
        (Some example_config) example_staging)) ''/portfolios/fahes'') \<and>
   ''fahes.pdf'' \<notin> set (dest_files (final_fs (filter_office365_attachments example_mail_dict example_attachment_dict
        (Some example_config) example_staging)) ''/portfolios/oman'') \<and>
   ''fahes.pdf'' \<notin> set (staged (final_fs (filter_office365_attachments example_mail_dict example_attachment_dict
        (Some example_config) example_staging))) \<and>
   ''oman.pdf'' \<in> set (dest_files (final_fs (filter_office365_attachments example_mail_dict example_attachment_dict
        (Some example_config) example_staging)) ''/portfolios/oman'') \<and>
   ''oman.pdf'' \<notin> set (staged (final_fs (filter_office365_attachments example_mail_dict example_attachment_dict
        (Some example_config) example_staging))) \<and>
   ''170792.pdf'' \<in> set (dest_files (final_fs (filter_office365_attachments example_mail_dict example_attachment_dict
        (Some example_config) example_staging)) ''/portfolios/pension_c'') \<and>
   ''170792.pdf'' \<notin> set (staged (final_fs (filter_office365_attachments example_mail_dict example_attachment_dict
        (Some example_config) example_staging))) \<and>
   ''notes.pdf'' \<in> set (unclassified_files (final_fs (filter_office365_attachments example_mail_dict example_attachment_dict
        (Some example_config) example_staging))) \<and>
   ''notes.pdf'' \<notin> set (staged (final_fs (filter_office365_attachments example_mail_dict example_attachment_dict
        (Some example_config) example_staging)))"
proof -
  have e: "staging_exists example_staging"
    by code_simp
  have d: "distinct (listdir example_staging)"
    by code_simp
  have l1: "listdir example_staging = [] @ ''fahes.pdf'' # [''oman.pdf'', ''170792.pdf'', ''notes.pdf'']"
    by code_simp
  have s1: "''fahes.pdf'' \<in> set (staged example_staging)"
    by code_simp
  have p1: "route_files example_mail_dict example_attachment_dict (Some example_config)
        [] example_staging = Inr example_staging"
    by simp
  have k1: "matching_keys ''fahes.pdf'' example_attachment_dict = ''m1'' # []"
    by code_simp
  have m1: "map_of example_mail_dict ''m1'' = Some mail_fahes"
    by code_simp
  have l2: "listdir example_staging = [''fahes.pdf''] @ ''oman.pdf'' # [''170792.pdf'', ''notes.pdf'']"
    by code_simp
  have s2: "''oman.pdf'' \<in> set (staged example_staging)"
    by code_simp
  have p2: "route_files example_mail_dict example_attachment_dict (Some example_config)
        [''fahes.pdf''] example_staging =
      Inr \<lparr>staging_exists = True, staged = [''oman.pdf'', ''170792.pdf'', ''notes.pdf''],
          unclassified = None, destinations = [(''/portfolios/fahes'', [''fahes.pdf''])]\<rparr>"
    by code_simp
  have k2: "matching_keys ''oman.pdf'' example_attachment_dict = ''m2'' # []"
    by code_simp
  have m2: "map_of example_mail_dict ''m2'' = Some mail_oman"
    by code_simp
  have l3: "listdir example_staging = [''fahes.pdf'', ''oman.pdf''] @ ''170792.pdf'' # [''notes.pdf'']"
    by code_simp
  have s3: "''170792.pdf'' \<in> set (staged example_staging)"
    by code_simp
  have p3: "route_files example_mail_dict example_attachment_dict (Some example_config)
        [''fahes.pdf'', ''oman.pdf''] example_staging =
      Inr \<lparr>staging_exists = True, staged = [''170792.pdf'', ''notes.pdf''], unclassified = None,
          destinations = [(''/portfolios/fahes'', [''fahes.pdf'']),
            (''/portfolios/oman'', [''oman.pdf''])]\<rparr>"
    by code_simp
  have k3: "matching_keys ''170792.pdf'' example_attachment_dict = ''m3'' # []"
    by code_simp
  have m3: "map_of example_mail_dict ''m3'' = Some mail_plain"
    by code_simp
  have l4: "listdir example_staging = [''fahes.pdf'', ''oman.pdf'', ''170792.pdf''] @ ''notes.pdf'' # []"
    by code_simp
  have s4: "''notes.pdf'' \<in> set (staged example_staging)"
    by code_simp
  have p4: "route_files example_mail_dict example_attachment_dict (Some example_config)
        [''fahes.pdf'', ''oman.pdf'', ''170792.pdf''] example_staging =
      Inr \<lparr>staging_exists = True, staged = [''notes.pdf''], unclassified = None,
          destinations = [(''/portfolios/fahes'', [''fahes.pdf'']),
            (''/portfolios/oman'', [''oman.pdf'']),
            (''/portfolios/pension_c'', [''170792.pdf''])]\<rparr>"
    by code_simp
  have k4: "matching_keys ''notes.pdf'' example_attachment_dict = ''m4'' # []"
    by code_simp
  have m4: "map_of example_mail_dict ''m4'' = Some mail_plain"
    by code_simp
  have S1: "find (\<lambda>(s, l). sublist s (subject mail_fahes)) Subject_filter =
        Some (''[Not Virus Scanned] WOQOD - Fahes - Account Statement & Portfolio'', ''Fahes'')"
    by code_simp
  have B1: "find (\<lambda>(t, l). prefix t (body mail_fahes)) BodyTitle_filter = Some (''OQIC'', ''Oman'')"
    by code_simp
  have c1: "map_of example_config ''Fahes'' = Some ''/portfolios/fahes''"
    by code_simp
  have S2: "find (\<lambda>(s, l). sublist s (subject mail_oman)) Subject_filter = None"
    by code_simp
  have B2: "find (\<lambda>(t, l). prefix t (body mail_oman)) BodyTitle_filter = Some (''OQIC'', ''Oman'')"
    by code_simp
  have c2: "map_of example_config ''Oman'' = Some ''/portfolios/oman''"
    by code_simp
  have S3: "find (\<lambda>(s, l). sublist s (subject mail_plain)) Subject_filter = None"
    by code_simp
  have B3: "find (\<lambda>(t, l). prefix t (body mail_plain)) BodyTitle_filter = None"
    by code_simp
  have D3: "map_of DocName_filter (fst (splitext ''170792.pdf'')) = Some ''Pension C''"
    by code_simp
  have c3: "map_of example_config ''Pension C'' = Some ''/portfolios/pension_c''"
    by code_simp
  have D4: "map_of DocName_filter (fst (splitext ''notes.pdf'')) = None"
    by code_simp
  have n4: "''Unclassified'' \<notin> set (staged example_staging)"
    by code_simp
  have u4: "''notes.pdf'' \<notin> set (unclassified_files example_staging)"
    by code_simp
  have run: "filter_office365_attachments example_mail_dict example_attachment_dict
        (Some example_config) example_staging =
      Inr \<lparr>staging_exists = True, staged = [], unclassified = Some [''notes.pdf''],
          destinations = [(''/portfolios/fahes'', [''fahes.pdf'']),
            (''/portfolios/oman'', [''oman.pdf'']),
            (''/portfolios/pension_c'', [''170792.pdf''])]\<rparr>"
    by code_simp
  have ne: "''/portfolios/oman'' \<noteq> ''/portfolios/fahes''" by simp
  have no: "''fahes.pdf'' \<notin> set (dest_files example_staging ''/portfolios/oman'')"
    by code_simp
  note t1 = staged_file_goes_to_first_satisfied_tier [OF e d l1 s1 p1 k1 m1, THEN conjunct1, rule_format,
      OF S1 refl c1]
  note t2 = staged_file_goes_to_first_satisfied_tier [OF e d l2 s2 p2 k2 m2, THEN conjunct2,
      THEN conjunct1, rule_format, OF S2 B2 refl c2]
  note t3 = staged_file_goes_to_first_satisfied_tier [OF e d l3 s3 p3 k3 m3, THEN conjunct2,
      THEN conjunct2, THEN conjunct1, rule_format, OF S3 B3 D3 refl c3]
  note t4 = staged_file_goes_to_first_satisfied_tier [OF e d l4 s4 p4 k4 m4, THEN conjunct2,
      THEN conjunct2, THEN conjunct2, rule_format, OF S3 B3 D4 n4 u4]
  have r1: "''fahes.pdf'' \<in> set (dest_files (final_fs (filter_office365_attachments example_mail_dict example_attachment_dict
          (Some example_config) example_staging)) ''/portfolios/fahes'')"
    by (rule t1 [THEN conjunct1])
  have r1b: "''fahes.pdf'' \<notin> set (dest_files (final_fs (filter_office365_attachments example_mail_dict example_attachment_dict
          (Some example_config) example_staging)) ''/portfolios/oman'')"
    unfolding t1 [THEN conjunct2, THEN conjunct2, THEN conjunct1, rule_format, OF ne]
    by (rule no)
  have r1c: "''fahes.pdf'' \<notin> set (staged (final_fs (filter_office365_attachments example_mail_dict example_attachment_dict
          (Some example_config) example_staging)))"
    by (rule t1 [THEN conjunct2, THEN conjunct1])
  have r2: "''oman.pdf'' \<in> set (dest_files (final_fs (filter_office365_attachments example_mail_dict example_attachment_dict
          (Some example_config) example_staging)) ''/portfolios/oman'')"
    by (rule t2 [THEN conjunct1])
  have r2c: "''oman.pdf'' \<notin> set (staged (final_fs (filter_office365_attachments example_mail_dict example_attachment_dict
          (Some example_config) example_staging)))"
    by (rule t2 [THEN conjunct2, THEN conjunct1])
  have r3: "''170792.pdf'' \<in> set (dest_files (final_fs (filter_office365_attachments example_mail_dict example_attachment_dict
          (Some example_config) example_staging)) ''/portfolios/pension_c'')"
    by (rule t3 [THEN conjunct1])
  have r3c: "''170792.pdf'' \<notin> set (staged (final_fs (filter_office365_attachments example_mail_dict example_attachment_dict
          (Some example_config) example_staging)))"
    by (rule t3 [THEN conjunct2, THEN conjunct1])
  have r4: "''notes.pdf'' \<in> set (unclassified_files (final_fs (filter_office365_attachments example_mail_dict example_attachment_dict
          (Some example_config) example_staging)))"
    by (rule t4 [THEN conjunct1])
  have r4c: "''notes.pdf'' \<notin> set (staged (final_fs (filter_office365_attachments example_mail_dict example_attachment_dict
          (Some example_config) example_staging)))"
    by (rule t4 [THEN conjunct2, THEN conjunct1])
  from e d l1 s1 p1 k1 m1 l2 s2 p2 k2 m2 l3 s3 p3 k3 m3 l4 s4 p4 k4 m4 S1 B1 c1 S2 B2 c2
    S3 B3 D3 c3 D4 n4 u4 run r1 r1b r1c r2 r2c r3 r3c r4 r4c
  show ?thesis by (intro conjI)
qed

section \<open>Several owners of one file\<close>





section \<open>Which messages own a file\<close>

lemma matching_keys_set:
  "set (matching_keys a ad) = {key. \<exists>value. (key, value) \<in> set ad \<and> list_ex (sublist a) value}"
proof (intro set_eqI iffI)
  fix key assume "key \<in> set (matching_keys a ad)"
  then obtain v where "(key, v) \<in> set ad" "list_ex (sublist a) v"
    unfolding matching_keys_def by auto
  then show "key \<in> {key. \<exists>value. (key, value) \<in> set ad \<and> list_ex (sublist a) value}"
    by blast
next
  fix key assume "key \<in> {key. \<exists>value. (key, value) \<in> set ad \<and> list_ex (sublist a) value}"
  then obtain v where kv: "(key, v) \<in> set ad" "list_ex (sublist a) v" by blast
  then have "(key, v) \<in> set (filter (\<lambda>(key, value). list_ex (sublist a) value) ad)"
    by simp
  then have "fst (key, v) \<in> fst ` set (filter (\<lambda>(key, value). list_ex (sublist a) value) ad)"
    by (rule imageI)
  then show "key \<in> set (matching_keys a ad)"
    unfolding matching_keys_def by simp
qed

lemma list_ex_sublist:
  "list_ex (sublist a) value \<longleftrightarrow>
     (\<exists>string p q. string \<in> set value \<and> string = p @ a @ q)"
  unfolding list_ex_iff sublist_def by blast

lemma exact_owners_set:
  "set (exact_owners a ad) = {key. \<exists>value. (key, value) \<in> set ad \<and> a \<in> set value}"
proof (intro set_eqI iffI)
  fix key assume "key \<in> set (exact_owners a ad)"
  then obtain v where "(key, v) \<in> set ad" "a \<in> set v"
    unfolding exact_owners_def by auto
  then show "key \<in> {key. \<exists>value. (key, value) \<in> set ad \<and> a \<in> set value}"
    by blast
next
  fix key assume "key \<in> {key. \<exists>value. (key, value) \<in> set ad \<and> a \<in> set value}"
  then obtain v where kv: "(key, v) \<in> set ad" "a \<in> set v" by blast
  then have "(key, v) \<in> set (filter (\<lambda>(key, value). a \<in> set value) ad)"
    by simp
  then have "fst (key, v) \<in> fst ` set (filter (\<lambda>(key, value). a \<in> set value) ad)"
    by (rule imageI)
  then show "key \<in> set (exact_owners a ad)"
    unfolding exact_owners_def by simp
qed

text \<open>
  Claim C4, as amended. The owners computed for a staged file are exactly the message IDs
  whose entry lists some name that contains the staged name as a contiguous substring.
  Every message that lists the exact name is among them, but not only those.
\<close>

theorem owners_by_substring:
  "set (matching_keys a ad) =
     {key. \<exists>value string p q. (key, value) \<in> set ad \<and> string \<in> set value \<and>
        string = p @ a @ q} \<and>
   set (exact_owners a ad) \<subseteq> set (matching_keys a ad)"
proof -
  have "set (matching_keys a ad) =
     {key. \<exists>value string p q. (key, value) \<in> set ad \<and> string \<in> set value \<and>
        string = p @ a @ q}"
    unfolding matching_keys_set list_ex_sublist by blast
  moreover have "set (exact_owners a ad) \<subseteq> set (matching_keys a ad)"
  proof
    fix key assume "key \<in> set (exact_owners a ad)"
    then obtain v where kv: "(key, v) \<in> set ad" "a \<in> set v"
      unfolding exact_owners_set by blast
    have "list_ex (sublist a) v"
      unfolding list_ex_iff using kv(2) by (intro bexI [of _ a]) simp_all
    with kv(1) show "key \<in> set (matching_keys a ad)"
      unfolding matching_keys_set by blast
  qed
  ultimately show ?thesis by blast
qed

theorem owners_by_substring_witness:
  "set (matching_keys ''statement.pdf''
          [(''m1'', [''statement.pdf'']), (''m2'', [''old_statement.pdf'']), (''m3'', [])]) =
     {key. \<exists>value string p q.
        (key, value) \<in> set [(''m1'', [''statement.pdf'']), (''m2'', [''old_statement.pdf'']),
           (''m3'', [])] \<and>
        string \<in> set value \<and> string = p @ ''statement.pdf'' @ q} \<and>
   matching_keys ''statement.pdf''
          [(''m1'', [''statement.pdf'']), (''m2'', [''old_statement.pdf'']), (''m3'', [])]
     = [''m1'', ''m2'']"
proof -
  have "matching_keys ''statement.pdf''
          [(''m1'', [''statement.pdf'']), (''m2'', [''old_statement.pdf'']), (''m3'', [])]
     = [''m1'', ''m2'']"
    by code_simp
  moreover note owners_by_substring [of "''statement.pdf''"
      "[(''m1'', [''statement.pdf'']), (''m2'', [''old_statement.pdf'']), (''m3'', [])]",
      THEN conjunct1]
  ultimately show ?thesis by (intro conjI)
qed

text \<open>
  Claim C4 as stated fails: \<^verbatim>\<open>statement.pdf\<close> is contained in the name \<^verbatim>\<open>old_statement.pdf\<close>
  that message \<^verbatim>\<open>m2\<close> lists, so \<^verbatim>\<open>m2\<close> is computed as an owner although its entry does not
  contain that exact filename.
\<close>

theorem exact_filename_counterexample:
  "matching_keys ''statement.pdf'' [(''m1'', [''statement.pdf'']), (''m2'', [''old_statement.pdf''])]
     = [''m1'', ''m2''] \<and>
   exact_owners ''statement.pdf'' [(''m1'', [''statement.pdf'']), (''m2'', [''old_statement.pdf''])]
     = [''m1'']"
  by code_simp

section \<open>Cleanup of the staging directory\<close>

text \<open>
  Claim C9. When the classifier has gone through the whole listing without an exception,
  the staging directory exists afterwards if and only if it still lists an entry; the
  \<^verbatim>\<open>Unclassified\<close> directory is such an entry, so wherever it exists staging is kept.
\<close>

theorem staging_removed_iff_empty:
  assumes "filter_office365_attachments md ad cfg fs = Inr fs'"
  shows "(staging_exists fs' \<longleftrightarrow> listdir fs' \<noteq> []) \<and>
         (unclassified fs' \<noteq> None \<longrightarrow> staging_exists fs')"
proof -
  from assms have ex: "staging_exists fs"
    by (auto simp: filter_office365_attachments_def split: if_splits)
  with assms obtain fs2 where loop: "route_files md ad cfg (listdir fs) fs = Inr fs2"
    and fs': "fs' = (if listdir fs2 = [] then fs2\<lparr>staging_exists := False\<rparr> else fs2)"
    by (auto simp: filter_office365_attachments_def split: sum.splits)
  have "staging_exists fs2"
    using route_files_staging_exists [of md ad cfg "listdir fs" fs] loop ex by simp
  moreover have "listdir (fs2\<lparr>staging_exists := False\<rparr>) = listdir fs2"
    by (simp add: listdir_def)
  ultimately have "staging_exists fs' \<longleftrightarrow> listdir fs' \<noteq> []"
    by (simp add: fs')
  moreover have "unclassified fs' \<noteq> None \<longrightarrow> listdir fs' \<noteq> []"
    by (auto simp: listdir_def)
  ultimately show ?thesis by blast
qed

theorem staging_removed_iff_empty_witness:
  "filter_office365_attachments
     [(''m1'', \<lparr>sender = ''a@b.c'', date = ''2023-05-01T08:00:00Z'', subject = ''Hello'',
          body = ''Nothing to match''\<rparr>)]
     [(''m1'', [''report.pdf''])] (Some [(''Oman'', ''/portfolios/oman'')])
     \<lparr>staging_exists = True, staged = [''report.pdf''], unclassified = None,
        destinations = []\<rparr>
   = Inr \<lparr>staging_exists = True, staged = [], unclassified = Some [''report.pdf''],
        destinations = []\<rparr> \<and>
   listdir \<lparr>staging_exists = True, staged = [], unclassified = Some [''report.pdf''],
        destinations = []\<rparr> \<noteq> [] \<and>
   filter_office365_attachments
     [(''m1'', \<lparr>sender = ''a@b.c'', date = ''2023-05-01T08:00:00Z'', subject = ''Hello'',
          body = ''OQIC monthly''\<rparr>)]
     [(''m1'', [''report.pdf''])] (Some [(''Oman'', ''/portfolios/oman'')])
     \<lparr>staging_exists = True, staged = [''report.pdf''], unclassified = None,
        destinations = []\<rparr>
   = Inr \<lparr>staging_exists = False, staged = [], unclassified = None,
        destinations = [(''/portfolios/oman'', [''report.pdf''])]\<rparr> \<and>
   listdir \<lparr>staging_exists = False, staged = [], unclassified = None,
        destinations = [(''/portfolios/oman'', [''report.pdf''])]\<rparr> = []"
proof -
  have h1: "filter_office365_attachments
     [(''m1'', \<lparr>sender = ''a@b.c'', date = ''2023-05-01T08:00:00Z'', subject = ''Hello'',
          body = ''Nothing to match''\<rparr>)]
     [(''m1'', [''report.pdf''])] (Some [(''Oman'', ''/portfolios/oman'')])
     \<lparr>staging_exists = True, staged = [''report.pdf''], unclassified = None,
        destinations = []\<rparr>
   = Inr \<lparr>staging_exists = True, staged = [], unclassified = Some [''report.pdf''],
        destinations = []\<rparr>"
    by code_simp
  have h2: "filter_office365_attachments
     [(''m1'', \<lparr>sender = ''a@b.c'', date = ''2023-05-01T08:00:00Z'', subject = ''Hello'',
          body = ''OQIC monthly''\<rparr>)]
     [(''m1'', [''report.pdf''])] (Some [(''Oman'', ''/portfolios/oman'')])
     \<lparr>staging_exists = True, staged = [''report.pdf''], unclassified = None,
        destinations = []\<rparr>
   = Inr \<lparr>staging_exists = False, staged = [], unclassified = None,
        destinations = [(''/portfolios/oman'', [''report.pdf''])]\<rparr>"
    by code_simp
  from staging_removed_iff_empty [OF h1] staging_removed_iff_empty [OF h2] h1 h2
  show ?thesis by simp
qed

section \<open>The fetch loops keep their invariant\<close>

lemma write_file_frame [simp]:
  "staging_exists (write_file n fs) = staging_exists fs"
  "unclassified (write_file n fs) = unclassified fs"
  "destinations (write_file n fs) = destinations fs"
  "set (staged (write_file n fs)) = insert n (set (staged fs))"
  by (auto simp: write_file_def)

lemma write_attachment_Inr:
  assumes "write_attachment srv n fs = Inr fs'"
  shows "set (staged fs) \<subseteq> set (staged fs')"
    and "staging_exists fs' = staging_exists fs"
    and "CHR ''/'' \<notin> set n \<Longrightarrow> n \<in> set (staged fs')"
proof -
  show "set (staged fs) \<subseteq> set (staged fs')"
    using assms
    by (auto simp: write_attachment_def split: if_splits write_target.splits option.splits)
  show "staging_exists fs' = staging_exists fs"
    using assms
    by (auto simp: write_attachment_def split: if_splits write_target.splits option.splits)
  show "n \<in> set (staged fs')" if "CHR ''/'' \<notin> set n"
    using assms that
    by (auto simp: write_attachment_def split: if_splits)
qed

text \<open>What the attachment loop keeps, and what it returns when nothing fails.\<close>

lemma download_pdfs_grows:
  "download_pdfs srv i atts (acc, r, fs) = (e, acc', r', fs') \<Longrightarrow>
     set (staged fs) \<subseteq> set (staged fs') \<and> staging_exists fs' = staging_exists fs"
proof (induction atts arbitrary: acc r fs)
  case Nil
  then show ?case by simp
next
  case (Cons att atts)
  show ?case
  proof (cases "is_pdf att")
    case False
    with Cons.prems have "download_pdfs srv i atts (acc, r, fs) = (e, acc', r', fs')"
      by simp
    from Cons.IH [OF this] show ?thesis .
  next
    case True
    show ?thesis
    proof (cases "get_content srv i (att_id att)")
      case (Inl err)
      with True Cons.prems show ?thesis by simp
    next
      case (Inr u)
      show ?thesis
      proof (cases "write_attachment srv (att_name att) fs")
        case wr: (Inl err)
        with True Inr Cons.prems show ?thesis by simp
      next
        case wr: (Inr fs1)
        with True Inr Cons.prems have
          "download_pdfs srv i atts (acc @ [att_name att], ContentResponse, fs1)
             = (e, acc', r', fs')"
          by simp
        from Cons.IH [OF this] write_attachment_Inr(1,2) [OF wr] show ?thesis by auto
      qed
    qed
  qed
qed

lemma download_pdfs_ok:
  "download_pdfs srv i atts (acc, r, fs) = (None, acc', r', fs') \<Longrightarrow>
     acc' = acc @ map att_name (filter is_pdf atts) \<and>
     (\<forall>n \<in> set (map att_name (filter is_pdf atts)). CHR ''/'' \<notin> set n \<longrightarrow> n \<in> set (staged fs')) \<and>
     r' = (if filter is_pdf atts = [] then r else ContentResponse)"
proof (induction atts arbitrary: acc r fs)
  case Nil
  then show ?case by simp
next
  case (Cons att atts)
  show ?case
  proof (cases "is_pdf att")
    case False
    with Cons.prems have "download_pdfs srv i atts (acc, r, fs) = (None, acc', r', fs')"
      by simp
    from Cons.IH [OF this] False show ?thesis by simp
  next
    case True
    with Cons.prems obtain u where u: "get_content srv i (att_id att) = Inr u"
      by (cases "get_content srv i (att_id att)") auto
    with True Cons.prems obtain fs1 where wr: "write_attachment srv (att_name att) fs = Inr fs1"
      by (cases "write_attachment srv (att_name att) fs") auto
    with True u Cons.prems have run:
      "download_pdfs srv i atts (acc @ [att_name att], ContentResponse, fs1)
         = (None, acc', r', fs')"
      by simp
    have here: "att_name att \<in> set (staged fs')" if "CHR ''/'' \<notin> set (att_name att)"
      using write_attachment_Inr(3) [OF wr that] download_pdfs_grows [OF run] by blast
    from Cons.IH [OF run] True here show ?thesis by auto
  qed
qed

lemma process_message_ok:
  assumes "process_message ex srv i st = (None, st')"
  shows "\<exists>d. get_message srv i = Inr d \<and>
           st_attachment_dict st' = AList.update i (pdf_names d) (st_attachment_dict st) \<and>
           st_mail_dict st' =
             (if pdf_names d = [] then st_mail_dict st
              else AList.update i
(mail_of ex d) (st_mail_dict st)) \<and>
           set (staged (st_files st)) \<subseteq> set (staged (st_files st')) \<and>
           (\<forall>n \<in> set (pdf_names d). CHR ''/'' \<notin> set n \<longrightarrow> n \<in> set (staged (st_files st'))) \<and>
           staging_exists (st_files st') = staging_exists (st_files st) \<and>
           st_response st' = (if pdf_names d = [] then MessageResponse d else ContentResponse)"
proof -
  from assms obtain d where d: "get_message srv i = Inr d"
    by (cases "get_message srv i") (auto simp: process_message_def)
  obtain e acc r fs where dl:
    "download_pdfs srv i (attachments_of d) ([], MessageResponse d, st_files st) = (e, acc, r, fs)"
    by (metis prod_cases4)
  with assms d have e: "e = None"
    by (cases e) (auto simp: process_message_def)
  from download_pdfs_ok [OF dl [unfolded e]]
  have acc: "acc = pdf_names d"
    and files: "\<forall>n \<in> set (pdf_names d). CHR ''/'' \<notin> set n \<longrightarrow> n \<in> set (staged fs)"
    and r: "r = (if pdf_names d = [] then MessageResponse d else ContentResponse)"
    by (simp_all add: pdf_names_def)
  from download_pdfs_grows [OF dl] have ex: "staging_exists fs = staging_exists (st_files st)"
    and grows: "set (staged (st_files st)) \<subseteq> set (staged fs)"
    by simp_all
  from assms d dl e have st': "st' = st\<lparr>st_mail_dict :=
        (if acc \<noteq> [] then AList.update i \<lparr>sender = ed_sender d, date = ed_receivedDateTime d,
            subject = ed_subject d, body = stored_body ex d\<rparr> (st_mail_dict st)
         else st_mail_dict st),
      st_attachment_dict := AList.update i acc (st_attachment_dict st),
      st_response := r, st_files := fs\<rparr>"
    by (auto simp: process_message_def Let_def stored_body_def)
  show ?thesis
    by (rule exI [of _ d]) (simp add: d st' acc files r ex grows mail_of_def)
qed

lemma process_message_fail:
  assumes "process_message ex srv i st = (Some e, st')"
  shows "st_mail_dict st' = st_mail_dict st \<and> st_attachment_dict st' = st_attachment_dict st \<and>
         set (staged (st_files st)) \<subseteq> set (staged (st_files st')) \<and>
         staging_exists (st_files st') = staging_exists (st_files st)"
proof (cases "get_message srv i")
  case (Inl err)
  with assms show ?thesis by (simp add: process_message_def)
next
  case (Inr d)
  obtain e' acc r fs where dl:
    "download_pdfs srv i (attachments_of d) ([], MessageResponse d, st_files st) = (e', acc, r, fs)"
    by (metis prod_cases4)
  with assms Inr have st': "st' = st\<lparr>st_response := r, st_files := fs\<rparr>"
    by (cases e') (auto simp: process_message_def Let_def)
  from download_pdfs_grows [OF dl] show ?thesis by (simp add: st')
qed

lemma process_message_inv:
  assumes "fetch_inv ex srv st" and "process_message ex srv i st = (e, st')"
  shows "fetch_inv ex srv st'"
proof (cases e)
  case (Some err)
  from process_message_fail [OF assms(2) [unfolded Some]]
  have same: "st_mail_dict st' = st_mail_dict st" "st_attachment_dict st' = st_attachment_dict st"
    and sub: "set (staged (st_files st)) \<subseteq> set (staged (st_files st'))"
    by simp_all
  show ?thesis
    unfolding fetch_inv_def same
    using assms(1) [unfolded fetch_inv_def] sub by blast
next
  case None
  from process_message_ok [OF assms(2) [unfolded None]] obtain d where
    d: "get_message srv i = Inr d"
    and ad: "st_attachment_dict st' = AList.update i (pdf_names d) (st_attachment_dict st)"
    and md: "st_mail_dict st' =
             (if pdf_names d = [] then st_mail_dict st
              else AList.update i (mail_of ex d) (st_mail_dict st))"
    and grows: "set (staged (st_files st)) \<subseteq> set (staged (st_files st'))"
    and files: "\<forall>n \<in> set (pdf_names d). CHR ''/'' \<notin> set n \<longrightarrow> n \<in> set (staged (st_files st'))"
    by blast
  have old: "map_of (st_mail_dict st) i = None" if "pdf_names d = []"
  proof (cases "map_of (st_attachment_dict st) i")
    case None
    with assms(1) [unfolded fetch_inv_def] show ?thesis by blast
  next
    case (Some names)
    with assms(1) [unfolded fetch_inv_def] obtain d0 where
      "get_message srv i = Inr d0" "names = pdf_names d0"
      "map_of (st_mail_dict st) i = (if names = [] then None else Some (mail_of ex d0))"
      by blast
    with d that show ?thesis by simp
  qed
  have 1: "distinct (map fst (st_attachment_dict st'))"
    using assms(1) [unfolded fetch_inv_def] by (simp add: ad distinct_update)
  have 2: "map_of (st_mail_dict st') j = None" if "map_of (st_attachment_dict st') j = None" for j
  proof -
    from that have ji: "j \<noteq> i" and "map_of (st_attachment_dict st) j = None"
      by (auto simp: ad update_conv' split: if_splits)
    with assms(1) [unfolded fetch_inv_def] have "map_of (st_mail_dict st) j = None" by blast
    with ji show ?thesis by (simp add: md update_conv')
  qed
  have 3: "(\<exists>d. get_message srv j = Inr d \<and> names = pdf_names d \<and>
           map_of (st_mail_dict st') j = (if names = [] then None else Some (mail_of ex d))) \<and>
        (\<forall>n \<in> set names. CHR ''/'' \<notin> set n \<longrightarrow> n \<in> set (staged (st_files st')))"
    if "map_of (st_attachment_dict st') j = Some names" for j names
  proof (cases "j = i")
    case True
    with that have "names = pdf_names d" by (simp add: ad update_conv')
    with True d old files show ?thesis by (auto simp: md update_conv')
  next
    case False
    with that have "map_of (st_attachment_dict st) j = Some names" by (simp add: ad update_conv')
    with assms(1) [unfolded fetch_inv_def]
    have "(\<exists>d. get_message srv j = Inr d \<and> names = pdf_names d \<and>
           map_of (st_mail_dict st) j = (if names = [] then None else Some (mail_of ex d))) \<and>
        (\<forall>n \<in> set names. CHR ''/'' \<notin> set n \<longrightarrow> n \<in> set (staged (st_files st)))"
      by blast
    with False grows show ?thesis by (auto simp: md update_conv')
  qed
  show ?thesis unfolding fetch_inv_def using 1 2 3 by blast
qed

lemma process_messages_inv:
  "fetch_inv ex srv st \<Longrightarrow> process_messages ex srv ms st = (e, st') \<Longrightarrow> fetch_inv ex srv st'"
proof (induction ms arbitrary: st)
  case Nil
  then show ?case by simp
next
  case (Cons i ms)
  obtain e1 st1 where step: "process_message ex srv i st = (e1, st1)"
    by (cases "process_message ex srv i st")
  have inv1: "fetch_inv ex srv st1"
    by (rule process_message_inv [OF Cons.prems(1) step])
  show ?case
  proof (cases e1)
    case None
    with Cons.prems(2) step have "process_messages ex srv ms st1 = (e, st')" by simp
    from Cons.IH [OF inv1 this] show ?thesis .
  next
    case (Some err)
    with Cons.prems(2) step have "st' = st1" by simp
    with inv1 show ?thesis by simp
  qed
qed

lemma fetch_inv_response [simp]:
  "fetch_inv ex srv (st\<lparr>st_response := r\<rparr>) = fetch_inv ex srv st"
  by (simp add: fetch_inv_def)

lemma fetch_pages_inv:
  "fetch_inv ex srv st \<Longrightarrow> fetch_pages ex fuel srv url st = (oc, st') \<Longrightarrow> fetch_inv ex srv st'"
proof (induction fuel arbitrary: url st)
  case 0
  then show ?case by simp
next
  case (Suc n)
  show ?case
  proof (cases "list_messages srv url")
    case (Inl err)
    with Suc.prems show ?thesis by simp
  next
    case (Inr page)
    obtain e1 st1 where pm:
      "process_messages ex srv (ml_value page) (st\<lparr>st_response := ListResponse page\<rparr>) = (e1, st1)"
      by (cases "process_messages ex srv (ml_value page) (st\<lparr>st_response := ListResponse page\<rparr>)")
    have inv1: "fetch_inv ex srv st1"
      by (rule process_messages_inv [OF _ pm]) (simp add: Suc.prems(1))
    show ?thesis
    proof (cases e1)
      case (Some err)
      with Suc.prems(2) Inr pm have "st' = st1" by (cases err) simp_all
      with inv1 show ?thesis by simp
    next
      case None
      show ?thesis
      proof (cases "next_link (st_response st1)")
        case (Inl err)
        with Suc.prems(2) Inr pm None have "st' = st1" by simp
        with inv1 show ?thesis by simp
      next
        case nl: (Inr nxt)
        show ?thesis
        proof (cases "nxt = None \<or> nxt = Some []")
          case True
          with Suc.prems(2) Inr pm None nl have "st' = st1" by auto
          with inv1 show ?thesis by simp
        next
          case False
          then obtain u where u: "nxt = Some u" "u \<noteq> []" by (cases nxt) auto
          with Suc.prems(2) Inr pm None nl have "fetch_pages ex n srv u st1 = (oc, st')"
            by simp
          from Suc.IH [OF inv1 this] show ?thesis .
        qed
      qed
    qed
  qed
qed

lemma download_inv:
  assumes "download_office365_attachments ex fuel srv fs = Some ((md, ad), fs')"
  shows "distinct (map fst ad) \<and>
     (\<forall>i. map_of ad i = None \<longrightarrow> map_of md i = None) \<and>
     (\<forall>i names. map_of ad i = Some names \<longrightarrow>
        (\<exists>d. get_message srv i = Inr d \<and> names = pdf_names d \<and>
           map_of md i = (if names = [] then None else Some (mail_of ex d))) \<and>
        (\<forall>n \<in> set names. CHR ''/'' \<notin> set n \<longrightarrow> n \<in> set (staged fs')))"
proof -
  obtain oc st where run: "fetch_pages ex fuel srv messages_url (initial_state fs) = (oc, st)"
    by (cases "fetch_pages ex fuel srv messages_url (initial_state fs)")
  have "fetch_inv ex srv (initial_state fs)" by (simp add: fetch_inv_def initial_state_def)
  from fetch_pages_inv [OF this run] have inv: "fetch_inv ex srv st" .
  from assms run have eqs: "md = st_mail_dict st" "ad = st_attachment_dict st" "fs' = st_files st"
    by (cases oc; simp add: download_office365_attachments_def)+
  show ?thesis unfolding eqs using inv [unfolded fetch_inv_def] .
qed


text \<open>The keys of the attachment index are the messages processed so far.\<close>

lemma process_messages_keys:
  "process_messages ex srv ms st = (e, st') \<Longrightarrow>
     fst ` set (st_attachment_dict st') =
       fst ` set (st_attachment_dict st) \<union> set (processed_of_page ex srv ms st)"
proof (induction ms arbitrary: st)
  case Nil
  then show ?case by simp
next
  case (Cons i ms)
  obtain e1 st1 where step: "process_message ex srv i st = (e1, st1)"
    by (cases "process_message ex srv i st")
  show ?case
  proof (cases e1)
    case None
    from process_message_ok [OF step [unfolded None]] obtain d where
      "st_attachment_dict st1 = AList.update i (pdf_names d) (st_attachment_dict st)"
      by blast
    then have keys:
      "fst ` set (st_attachment_dict st1) = insert i (fst ` set (st_attachment_dict st))"
      by (simp add: dom_update)
    from Cons.prems step None have "process_messages ex srv ms st1 = (e, st')" by simp
    from Cons.IH [OF this] keys step None show ?thesis by simp
  next
    case (Some err)
    with Cons.prems step have "st' = st1" by simp
    with process_message_fail [OF step [unfolded Some]] step Some show ?thesis by simp
  qed
qed

lemma fetch_pages_keys:
  "fetch_pages ex fuel srv url st = (oc, st') \<Longrightarrow>
     fst ` set (st_attachment_dict st') =
       fst ` set (st_attachment_dict st) \<union> set (processed ex fuel srv url st)"
proof (induction fuel arbitrary: url st)
  case 0
  then show ?case by simp
next
  case (Suc n)
  show ?case
  proof (cases "list_messages srv url")
    case (Inl err)
    with Suc.prems show ?thesis by simp
  next
    case (Inr page)
    obtain e1 st1 where pm:
      "process_messages ex srv (ml_value page) (st\<lparr>st_response := ListResponse page\<rparr>) = (e1, st1)"
      by (cases "process_messages ex srv (ml_value page) (st\<lparr>st_response := ListResponse page\<rparr>)")
    from process_messages_keys [OF pm]
    have keys1: "fst ` set (st_attachment_dict st1) = fst ` set (st_attachment_dict st) \<union>
        set (processed_of_page ex srv (ml_value page) (st\<lparr>st_response := ListResponse page\<rparr>))"
      by simp
    show ?thesis
    proof (cases e1)
      case (Some err)
      with Suc.prems Inr pm have "st' = st1" by (cases err) simp_all
      with keys1 Inr pm Some show ?thesis by simp
    next
      case None
      show ?thesis
      proof (cases "next_link (st_response st1)")
        case (Inl err)
        with Suc.prems Inr pm None have "st' = st1" by simp
        with keys1 Inr pm None Inl show ?thesis by simp
      next
        case nl: (Inr nxt)
        show ?thesis
        proof (cases "nxt = None \<or> nxt = Some []")
          case True
          with Suc.prems Inr pm None nl have "st' = st1" by auto
          with keys1 Inr pm None nl True show ?thesis by auto
        next
          case False
          then obtain u where u: "nxt = Some u" "u \<noteq> []" by (cases nxt) auto
          with Suc.prems Inr pm None nl have "fetch_pages ex n srv u st1 = (oc, st')"
            by simp
          from Suc.IH [OF this] keys1 Inr pm None nl u show ?thesis by auto
        qed
      qed
    qed
  qed
qed

lemma download_keys:
  assumes "download_office365_attachments ex fuel srv fs = Some ((md, ad), fs')"
  shows "fst ` set ad = set (processed ex fuel srv messages_url (initial_state fs))"
proof -
  obtain oc st where run: "fetch_pages ex fuel srv messages_url (initial_state fs) = (oc, st)"
    by (cases "fetch_pages ex fuel srv messages_url (initial_state fs)")
  from assms run have "ad = st_attachment_dict st"
    by (cases oc; simp add: download_office365_attachments_def)
  with fetch_pages_keys [OF run] show ?thesis by (simp add: initial_state_def)
qed

lemma one_page_run:
  "download_office365_attachments example_extract 3 mailbox_one_page empty_disk =
    Some (([(''m2'', \<lparr>sender = ''bank@example.com'', date = ''2023-05-01T09:00:00Z'',
        subject = ''Statement'', body = ''OQIC monthly''\<rparr>)],
         [(''m2'', [''report.PDF'']), (''m1'', [])]),
      \<lparr>staging_exists = True, staged = [''report.PDF''], unclassified = None,
        destinations = []\<rparr>)"
  by code_simp


section \<open>The two indexes after a fetch\<close>

text \<open>
  Claim C5, as amended. Whenever the fetcher returns, normally or through its \<^verbatim>\<open>except\<close>
  clause, the keys of the attachment index are the messages it has processed, and every
  processed message maps there to the names of the PDF attachments of its message
  resource. Where that list is empty the message is absent from the message index; where
  it is not, the message is a key of the message index as well, and every listed name
  without a path separator is a file of the staging directory.
\<close>

theorem processed_messages_are_indexed:
  assumes "download_office365_attachments ex fuel srv fs = Some ((md, ad), fs')"
  shows "fst ` set ad = set (processed ex fuel srv messages_url (initial_state fs)) \<and>
     (\<forall>i \<in> set (processed ex fuel srv messages_url (initial_state fs)).
        \<exists>d. get_message srv i = Inr d \<and> map_of ad i = Some (pdf_names d) \<and>
          (pdf_names d = [] \<longrightarrow> map_of md i = None) \<and>
          (pdf_names d \<noteq> [] \<longrightarrow> map_of md i \<noteq> None \<and>
             (\<forall>n \<in> set (pdf_names d). CHR ''/'' \<notin> set n \<longrightarrow> n \<in> set (staged fs'))))"
proof (intro conjI ballI)
  show keys: "fst ` set ad = set (processed ex fuel srv messages_url (initial_state fs))"
    by (rule download_keys [OF assms])
  fix i
  assume "i \<in> set (processed ex fuel srv messages_url (initial_state fs))"
  with keys have "i \<in> fst ` set ad" by simp
  then obtain names where "map_of ad i = Some names"
    by (cases "map_of ad i") (auto simp: map_of_eq_None_iff)
  with download_inv [OF assms] obtain d where
    "get_message srv i = Inr d" "names = pdf_names d" "map_of ad i = Some names"
    "map_of md i = (if names = [] then None else Some (mail_of ex d))"
    "\<forall>n \<in> set names. CHR ''/'' \<notin> set n \<longrightarrow> n \<in> set (staged fs')"
    by blast
  then show "\<exists>d. get_message srv i = Inr d \<and> map_of ad i = Some (pdf_names d) \<and>
          (pdf_names d = [] \<longrightarrow> map_of md i = None) \<and>
          (pdf_names d \<noteq> [] \<longrightarrow> map_of md i \<noteq> None \<and>
             (\<forall>n \<in> set (pdf_names d). CHR ''/'' \<notin> set n \<longrightarrow> n \<in> set (staged fs')))"
    by (intro exI [of _ d]) simp
qed

theorem processed_messages_are_indexed_witness:
  "download_office365_attachments example_extract 3 mailbox_one_page empty_disk =
    Some (([(''m2'', \<lparr>sender = ''bank@example.com'', date = ''2023-05-01T09:00:00Z'',
        subject = ''Statement'', body = ''OQIC monthly''\<rparr>)],
         [(''m2'', [''report.PDF'']), (''m1'', [])]),
      \<lparr>staging_exists = True, staged = [''report.PDF''], unclassified = None,
        destinations = []\<rparr>) \<and>
   processed example_extract 3 mailbox_one_page messages_url (initial_state empty_disk) =
     [''m2'', ''m1''] \<and>
   get_message mailbox_one_page ''m2'' = Inr example_statement \<and>
   get_message mailbox_one_page ''m1'' = Inr example_note \<and>
   pdf_names example_statement = [''report.PDF''] \<and>
   pdf_names example_note = [] \<and>
   CHR ''/'' \<notin> set ''report.PDF'' \<and>
   map_of [(''m2'', [''report.PDF'']), (''m1'', [])] ''m2'' = Some [''report.PDF''] \<and>
   map_of [(''m2'', [''report.PDF'']), (''m1'', [])] ''m1'' = Some [] \<and>
   map_of [(''m2'', \<lparr>sender = ''bank@example.com'', date = ''2023-05-01T09:00:00Z'',
        subject = ''Statement'', body = ''OQIC monthly''\<rparr>)] ''m2'' \<noteq> None \<and>
   map_of [(''m2'', \<lparr>sender = ''bank@example.com'', date = ''2023-05-01T09:00:00Z'',
        subject = ''Statement'', body = ''OQIC monthly''\<rparr>)] ''m1'' = None \<and>
   ''report.PDF'' \<in> set (staged \<lparr>staging_exists = True, staged = [''report.PDF''],
        unclassified = None, destinations = []\<rparr>)"
proof -
  have p: "processed example_extract 3 mailbox_one_page messages_url (initial_state empty_disk) =
     [''m2'', ''m1'']"
    by code_simp
  have g2: "get_message mailbox_one_page ''m2'' = Inr example_statement" by code_simp
  have g1: "get_message mailbox_one_page ''m1'' = Inr example_note" by code_simp
  have n2: "pdf_names example_statement = [''report.PDF'']" by code_simp
  have n1: "pdf_names example_note = []" by code_simp
  have plain: "CHR ''/'' \<notin> set ''report.PDF''" by simp
  note all = processed_messages_are_indexed [OF one_page_run, THEN conjunct2, unfolded p]
  have i2: "''m2'' \<in> set [''m2'', ''m1'']" and i1: "''m1'' \<in> set [''m2'', ''m1'']" by simp_all
  from bspec [OF all i2] g2 n2 plain
  have c2: "map_of [(''m2'', [''report.PDF'']), (''m1'', [])] ''m2'' = Some [''report.PDF'']"
    "map_of [(''m2'', \<lparr>sender = ''bank@example.com'', date = ''2023-05-01T09:00:00Z'',
        subject = ''Statement'', body = ''OQIC monthly''\<rparr>)] ''m2'' \<noteq> None"
    "''report.PDF'' \<in> set (staged \<lparr>staging_exists = True, staged = [''report.PDF''],
        unclassified = None, destinations = []\<rparr>)"
    by auto
  from bspec [OF all i1] g1 n1
  have c1: "map_of [(''m2'', [''report.PDF'']), (''m1'', [])] ''m1'' = Some []"
    "map_of [(''m2'', \<lparr>sender = ''bank@example.com'', date = ''2023-05-01T09:00:00Z'',
        subject = ''Statement'', body = ''OQIC monthly''\<rparr>)] ''m1'' = None"
    by auto
  from one_page_run p g2 g1 n2 n1 plain c2 c1 show ?thesis by (intro conjI)
qed

text \<open>
  Claim C5 as stated fails. The message \<open>m5\<close> has one PDF attachment, named
  \<^verbatim>\<open>../report.pdf\<close>. The fetch processes the message and lists that name in both indexes,
  but the file is opened at \<^verbatim>\<open>Attachments/../report.pdf\<close>, outside the staging directory,
  which stays empty.
\<close>

theorem listed_path_not_staged_counterexample:
  "get_message mailbox_path_name ''m5'' = Inr example_path_statement \<and>
   pdf_names example_path_statement = [''../report.pdf''] \<and>
   processed example_extract 3 mailbox_path_name messages_url (initial_state empty_disk) =
     [''m5''] \<and>
   download_office365_attachments example_extract 3 mailbox_path_name empty_disk =
     Some (([(''m5'', \<lparr>sender = ''bank@example.com'', date = ''2023-05-01T09:00:00Z'',
        subject = ''Statement'', body = ''OQIC monthly''\<rparr>)],
         [(''m5'', [''../report.pdf''])]),
      \<lparr>staging_exists = True, staged = [], unclassified = None, destinations = []\<rparr>) \<and>
   ''../report.pdf'' \<notin> set (staged
      \<lparr>staging_exists = True, staged = [], unclassified = None, destinations = []\<rparr>)"
  by code_simp


section \<open>The stored body\<close>

text \<open>
  Claim C8 does not hold of the code. The body is passed to the text extractor only when
  its content type is the string \<^verbatim>\<open>text/html\<close>. The mail API reports the content type of
  an HTML body as \<^verbatim>\<open>html\<close>: for the message \<open>m4\<close>, whose body is the markup
  \<^verbatim>\<open><p>OQIC monthly</p>\<close>, the stored body is that markup, tags included, and not the
  extractor's output \<^verbatim>\<open>OQIC monthly\<close>.
\<close>

theorem html_body_is_stored_with_its_tags:
  "get_message mailbox_html ''m4'' = Inr example_html_statement \<and>
   ed_body_contentType example_html_statement = ''html'' \<and>
   ed_body_content example_html_statement = ''<p>OQIC monthly</p>'' \<and>
   example_extract (ed_body_content example_html_statement) = ''OQIC monthly'' \<and>
   download_office365_attachments example_extract 3 mailbox_html empty_disk =
     Some (([(''m4'', \<lparr>sender = ''bank@example.com'', date = ''2023-05-01T09:00:00Z'',
        subject = ''Statement'', body = ''<p>OQIC monthly</p>''\<rparr>)],
         [(''m4'', [''report.pdf''])]),
      \<lparr>staging_exists = True, staged = [''report.pdf''], unclassified = None,
        destinations = []\<rparr>)"
  by code_simp


section \<open>The classifier on fetched indexes\<close>

lemma copy_to_label_no_key_error: "copy_to_label cfg l a fs \<noteq> Inl (MailKeyError k, s)"
  by (auto simp: copy_to_label_def Let_def split: option.splits if_splits)

lemma move_unclassified_no_key_error: "move_unclassified a fs \<noteq> Inl (MailKeyError k, s)"
  by (auto simp: move_unclassified_def Let_def split: if_splits)

lemma route_present_no_key_error:
  assumes "map_of md key = Some m"
  shows "route md cfg a key fs \<noteq> Inl (MailKeyError k, s)"
proof -
  have "(\<exists>l. route md cfg a key fs = copy_to_label cfg l a fs) \<or>
        route md cfg a key fs = move_unclassified a fs"
    by (auto simp: route_def subjectCheck_present [OF assms] bodyTitleCheck_present [OF assms]
        split: option.splits)
  then show ?thesis
    using copy_to_label_no_key_error move_unclassified_no_key_error by metis
qed

lemma route_keys_error:
  "route_keys md cfg a ks fs = Inl e \<Longrightarrow> \<exists>key \<in> set ks. \<exists>f. route md cfg a key f = Inl e"
proof (induction ks arbitrary: fs)
  case Nil
  then show ?case by simp
next
  case (Cons key ks)
  show ?case
  proof (cases "route md cfg a key fs")
    case (Inl e')
    with Cons.prems have "route md cfg a key fs = Inl e" by simp
    then show ?thesis by auto
  next
    case (Inr fs1)
    with Cons.prems have "route_keys md cfg a ks fs1 = Inl e" by simp
    from Cons.IH [OF this] show ?thesis by auto
  qed
qed

lemma route_files_error:
  "route_files md ad cfg xs fs = Inl e \<Longrightarrow>
     \<exists>a key f. key \<in> set (matching_keys a ad) \<and> route md cfg a key f = Inl e"
proof (induction xs arbitrary: fs)
  case Nil
  then show ?case by simp
next
  case (Cons a xs)
  show ?case
  proof (cases "route_keys md cfg a (matching_keys a ad) fs")
    case (Inl e')
    with Cons.prems have "route_keys md cfg a (matching_keys a ad) fs = Inl e" by simp
    from route_keys_error [OF this] show ?thesis by blast
  next
    case (Inr fs1)
    with Cons.prems have "route_files md ad cfg xs fs1 = Inl e" by simp
    from Cons.IH [OF this] show ?thesis .
  qed
qed

lemma matching_keys_listed:
  assumes "key \<in> set (matching_keys a ad)" and "distinct (map fst ad)"
  shows "\<exists>names. map_of ad key = Some names \<and> names \<noteq> []"
proof -
  from assms(1) obtain names where kv: "(key, names) \<in> set ad" "list_ex (sublist a) names"
    unfolding matching_keys_set by blast
  from kv(2) have "names \<noteq> []" by auto
  moreover from kv(1) assms(2) have "map_of ad key = Some names" by simp
  ultimately show ?thesis by blast
qed

lemma classify_no_key_error:
  assumes "distinct (map fst ad)"
      and "\<And>i names. map_of ad i = Some names \<Longrightarrow> names \<noteq> [] \<Longrightarrow> map_of md i \<noteq> None"
  shows "filter_office365_attachments md ad cfg fs \<noteq> Inl (MailKeyError k, s)"
proof
  assume bad: "filter_office365_attachments md ad cfg fs = Inl (MailKeyError k, s)"
  then have "route_files md ad cfg (listdir fs) fs = Inl (MailKeyError k, s)"
    by (auto simp: filter_office365_attachments_def split: if_splits sum.splits)
  from route_files_error [OF this] obtain a key f where
    key: "key \<in> set (matching_keys a ad)" and r: "route md cfg a key f = Inl (MailKeyError k, s)"
    by blast
  from matching_keys_listed [OF key assms(1)] obtain names where
    "map_of ad key = Some names" "names \<noteq> []" by blast
  from assms(2) [OF this] obtain m where "map_of md key = Some m" by auto
  from route_present_no_key_error [OF this] r show False by blast
qed

text \<open>
  Claim C10. In the indexes a fetch returns, every message ID with a non-empty list in the
  attachment index is a key of the message index. The classifier looks up only owners,
  whose lists are non-empty, so on these indexes it never raises the \<^verbatim>\<open>KeyError\<close> of a
  missing message, for any configuration and any file system; nor does \<^verbatim>\<open>main\<close>.
\<close>

theorem fetched_indexes_never_miss_a_message:
  assumes "download_office365_attachments ex fuel srv fs = Some ((md, ad), fs')"
  shows "(\<forall>i names. map_of ad i = Some names \<longrightarrow> names \<noteq> [] \<longrightarrow> map_of md i \<noteq> None) \<and>
         (\<forall>cfg fs2 k s. filter_office365_attachments md ad cfg fs2 \<noteq> Inl (MailKeyError k, s)) \<and>
         (\<forall>cfg k s. main ex fuel srv cfg fs \<noteq> Some (Inl (MailKeyError k, s)))"
proof -
  have d: "distinct (map fst ad)" using download_inv [OF assms] by blast
  have listed: "map_of md i \<noteq> None" if "map_of ad i = Some names" "names \<noteq> []" for i names
  proof -
    from download_inv [OF assms] that(1) obtain d where
      "map_of md i = (if names = [] then None else Some (mail_of ex d))" by blast
    with that(2) show ?thesis by simp
  qed
  have cl: "filter_office365_attachments md ad cfg fs2 \<noteq> Inl (MailKeyError k, s)" for cfg fs2 k s
    by (rule classify_no_key_error [OF d listed])
  have "main ex fuel srv cfg fs \<noteq> Some (Inl (MailKeyError k, s))" for cfg k s
    using cl [of cfg fs' k s] by (simp add: main_def assms)
  with listed cl show ?thesis by blast
qed


theorem fetched_indexes_never_miss_a_message_witness:
  "download_office365_attachments example_extract 3 mailbox_one_page empty_disk =
    Some (([(''m2'', \<lparr>sender = ''bank@example.com'', date = ''2023-05-01T09:00:00Z'',
        subject = ''Statement'', body = ''OQIC monthly''\<rparr>)],
         [(''m2'', [''report.PDF'']), (''m1'', [])]),
      \<lparr>staging_exists = True, staged = [''report.PDF''], unclassified = None,
        destinations = []\<rparr>) \<and>
   main example_extract 3 mailbox_one_page (Some [(''Oman'', ''/portfolios/oman'')]) empty_disk
     \<noteq> Some (Inl (MailKeyError ''m2'', empty_disk))"
  using fetched_indexes_never_miss_a_message [OF one_page_run] one_page_run by blast


section \<open>Failing requests\<close>





section \<open>Pagination\<close>

text \<open>
  Claim C6 does not hold of the code. The cursor is read from \<^verbatim>\<open>response\<close>, which the
  requests made for the messages of the page have overwritten. In this mailbox the first
  page lists \<^verbatim>\<open>m1\<close> and carries a cursor to a second page listing \<^verbatim>\<open>m2\<close>; the cursor is
  looked for in the message resource of \<^verbatim>\<open>m1\<close>, which has none, and the fetch returns
  without requesting the second page.
\<close>

theorem cursor_of_list_response_is_not_followed:
  "list_messages mailbox_two_pages messages_url =
     Inr \<lparr>ml_value = [''m1''], ml_nextLink = Some ''https://graph.example/page2''\<rparr> \<and>
   list_messages mailbox_two_pages ''https://graph.example/page2'' =
     Inr \<lparr>ml_value = [''m2''], ml_nextLink = None\<rparr> \<and>
   get_message mailbox_two_pages ''m1'' = Inr example_note \<and>
   ed_nextLink example_note = None \<and>
   download_office365_attachments example_extract 3 mailbox_two_pages empty_disk =
     Some (([], [(''m1'', [])]),
       \<lparr>staging_exists = True, staged = [], unclassified = None, destinations = []\<rparr>)"
  by code_simp

end
